theory Spec2Isabelle
  imports Complex_Main
begin

section \<open>Python primitives used by the diagnostic engine\<close>

text \<open>
  A Python float is a double. A finite float is modelled as the real number it stands
  for, and arithmetic on finite values is exact: the rounding error of an operation (at
  most half a unit in the last place) is not modelled. \<open>round(x, nd)\<close> rounds to
  \<open>nd\<close> decimals, a value exactly half way between two candidates going to the even one.
\<close>

definition round_half_even :: "real \<Rightarrow> int" where
  "round_half_even x =
     (let f = \<lfloor>x\<rfloor>; d = x - of_int f
      in if d < 1 / 2 then f
         else if 1 / 2 < d then f + 1
         else if even f then f else f + 1)"

definition py_round :: "real \<Rightarrow> nat \<Rightarrow> real" where
  "py_round x nd = of_int (round_half_even (x * 10 ^ nd)) / 10 ^ nd"

text \<open>
  Overflow is modelled where a sum is tested against zero and divided by: a sum of finite
  floats whose exact value reaches \<open>2^1024 - 2^970\<close> (half a unit in the last place above
  the largest double) is infinite. An infinity plus a finite float is that infinity, and a
  finite float divided by an infinity is zero.
\<close>

datatype pyfloat = Finite real | PosInf | NegInf

definition DBL_OVERFLOW :: real where
  "DBL_OVERFLOW = 2 ^ 1024 - 2 ^ 970"

definition fl :: "real \<Rightarrow> pyfloat" where
  "fl x = (if DBL_OVERFLOW \<le> x then PosInf
           else if x \<le> - DBL_OVERFLOW then NegInf
           else Finite x)"

fun fl_add :: "pyfloat \<Rightarrow> real \<Rightarrow> pyfloat" where
  "fl_add (Finite a) b = fl (a + b)"
| "fl_add PosInf b = PosInf"
| "fl_add NegInf b = NegInf"

text \<open>\<open>total <= 0\<close> and \<open>x / total\<close> for a finite \<open>x\<close>.\<close>

fun fl_le_zero :: "pyfloat \<Rightarrow> bool" where
  "fl_le_zero (Finite t) = (t \<le> 0)"
| "fl_le_zero PosInf = False"
| "fl_le_zero NegInf = True"

fun fl_div :: "real \<Rightarrow> pyfloat \<Rightarrow> real" where
  "fl_div x (Finite t) = x / t"
| "fl_div x PosInf = 0"
| "fl_div x NegInf = 0"

text \<open>
  \<open>str.lower()\<close> on the code points below 256, which is what a \<open>char\<close> holds: the ASCII
  capitals and the Latin-1 capitals (all of U+00C0 .. U+00DE but the multiplication sign)
  move up by 32, every other character stays.
\<close>

definition lower_char :: "char \<Rightarrow> char" where
  "lower_char c =
     (let n = (of_char c :: nat)
      in if (65 \<le> n \<and> n \<le> 90) \<or> (192 \<le> n \<and> n \<le> 214) \<or> (216 \<le> n \<and> n \<le> 222)
         then char_of (n + 32) else c)"

definition lower :: "string \<Rightarrow> string" where
  "lower s = map lower_char s"

text \<open>Exceptions are values. The two \<open>ValueError\<close>s of the trainer differ in their message only.\<close>

datatype value_error =
    TooFewSamples int nat
  | TooFewClasses nat
  | EmptySequence

datatype error =
    InvalidGasValueError
  | KeyError
  | IndexError
  | ValueError value_error

section \<open>Domain model\<close>

subsection \<open>\<open>fault_type.py\<close>\<close>

datatype FaultType = N | PD | D1 | D2 | T1 | T2 | T3 | DT | S

text \<open>The member name of the enumeration (\<open>ft.name\<close>).\<close>

fun FaultType_name :: "FaultType \<Rightarrow> string" where
  "FaultType_name N = ''N''"
| "FaultType_name PD = ''PD''"
| "FaultType_name D1 = ''D1''"
| "FaultType_name D2 = ''D2''"
| "FaultType_name T1 = ''T1''"
| "FaultType_name T2 = ''T2''"
| "FaultType_name T3 = ''T3''"
| "FaultType_name DT = ''DT''"
| "FaultType_name S = ''S''"

text \<open>The members in definition order, which is the order of iteration over the enumeration.\<close>

definition FaultType_members :: "FaultType list" where
  "FaultType_members = [N, PD, D1, D2, T1, T2, T3, DT, S]"

subsection \<open>\<open>gas_reading.py\<close>\<close>

record GasReading =
  h2 :: real
  ch4 :: real
  c2h6 :: real
  c2h4 :: real
  c2h2 :: real
  co :: real
  co2 :: real
  o2 :: real
  n2 :: real

text \<open>\<open>field_names()\<close>: the attribute names in canonical order.\<close>

definition field_names :: "string list" where
  "field_names = [''h2'', ''ch4'', ''c2h6'', ''c2h4'', ''c2h2'', ''co'', ''co2'', ''o2'', ''n2'']"

definition gas_fields :: "GasReading \<Rightarrow> real list" where
  "gas_fields r = [h2 r, ch4 r, c2h6 r, c2h4 r, c2h2 r, co r, co2 r, o2 r, n2 r]"

text \<open>
  \<open>__post_init__\<close>: the fields are visited in canonical order and the first negative one
  raises. The \<open>isinstance\<close> test cannot fail on a field of type real.
\<close>

fun post_init_fields :: "real list \<Rightarrow> error option" where
  "post_init_fields [] = None"
| "post_init_fields (v # vs) =
     (if v < 0 then Some InvalidGasValueError else post_init_fields vs)"

definition GasReading_init :: "GasReading \<Rightarrow> error + GasReading" where
  "GasReading_init r =
     (case post_init_fields (gas_fields r) of
        Some e \<Rightarrow> Inl e
      | None \<Rightarrow> Inr r)"

subsection \<open>\<open>method_result.py\<close>\<close>

text \<open>The values that the detail dictionaries hold; a dictionary keeps its insertion order.\<close>

datatype detail =
    DBool bool
  | DFloat real
  | DInt int
  | DStr string
  | DDict "(string \<times> detail) list"

record MethodResult =
  method_name :: string
  fault_type :: FaultType
  description :: string
  details :: "(string \<times> detail) list"

section \<open>\<open>gas_ratios.py\<close>\<close>

definition safe_ratio :: "real \<Rightarrow> real \<Rightarrow> real" where
  "safe_ratio numerator denominator =
     (if denominator \<le> 0 then (if numerator > 0 then 999 else 0)
      else numerator / denominator)"

definition ratio_ch4_h2 :: "GasReading \<Rightarrow> real" where
  "ratio_ch4_h2 reading = safe_ratio (ch4 reading) (h2 reading)"

definition ratio_c2h2_c2h4 :: "GasReading \<Rightarrow> real" where
  "ratio_c2h2_c2h4 reading = safe_ratio (c2h2 reading) (c2h4 reading)"

definition ratio_c2h4_c2h6 :: "GasReading \<Rightarrow> real" where
  "ratio_c2h4_c2h6 reading = safe_ratio (c2h4 reading) (c2h6 reading)"

definition ratio_c2h6_c2h2 :: "GasReading \<Rightarrow> real" where
  "ratio_c2h6_c2h2 reading = safe_ratio (c2h6 reading) (c2h2 reading)"

definition ratio_c2h2_ch4 :: "GasReading \<Rightarrow> real" where
  "ratio_c2h2_ch4 reading = safe_ratio (c2h2 reading) (ch4 reading)"

definition total_combustible_gases :: "GasReading \<Rightarrow> real" where
  "total_combustible_gases reading =
     h2 reading + ch4 reading + c2h6 reading + c2h4 reading + c2h2 reading + co reading"

definition duval_triangle_percentages :: "GasReading \<Rightarrow> real \<times> real \<times> real" where
  "duval_triangle_percentages reading =
     (let total = fl_add (fl_add (Finite (ch4 reading)) (c2h4 reading)) (c2h2 reading)
      in if fl_le_zero total then (0, 0, 0)
         else (fl_div (ch4 reading) total * 100,
               fl_div (c2h4 reading) total * 100,
               fl_div (c2h2 reading) total * 100))"

definition duval_pentagon_percentages ::
  "GasReading \<Rightarrow> real \<times> real \<times> real \<times> real \<times> real" where
  "duval_pentagon_percentages reading =
     (let total =
            fl_add (fl_add (fl_add (fl_add (Finite (h2 reading)) (ch4 reading)) (c2h6 reading))
                      (c2h4 reading)) (c2h2 reading)
      in if fl_le_zero total then (0, 0, 0, 0, 0)
         else (fl_div (h2 reading) total * 100,
               fl_div (ch4 reading) total * 100,
               fl_div (c2h6 reading) total * 100,
               fl_div (c2h4 reading) total * 100,
               fl_div (c2h2 reading) total * 100))"

section \<open>The six normative classifiers\<close>

text \<open>Decimal rendering of an integer, as an f-string does it.\<close>

fun str_nat :: "nat \<Rightarrow> string" where
  "str_nat n =
     (if n < 10 then [char_of (48 + n)]
      else str_nat (n div 10) @ [char_of (48 + n mod 10)])"

definition str_int :: "int \<Rightarrow> string" where
  "str_int i = (if i < 0 then CHR ''-'' # str_nat (nat (- i)) else str_nat (nat i))"

text \<open>The degree sign (U+00B0) followed by C, which several descriptions end with.\<close>

definition deg_C :: string where
  "deg_C = [CHR 0xB0, CHR ''C'']"

text \<open>The builtin \<open>max\<close> of a sequence of integers; it raises on an empty one.\<close>

fun py_max :: "int list \<Rightarrow> int option" where
  "py_max [] = None"
| "py_max (x # xs) = Some (fold max xs x)"

subsection \<open>\<open>ieee_c57_104.py\<close>\<close>

definition ieee_METHOD_NAME :: string where
  "ieee_METHOD_NAME = ''IEEE C57.104-2019''"

definition GAS_LIMITS :: "(string \<times> real \<times> real \<times> real) list" where
  "GAS_LIMITS =
     [(''h2'', (100, 200, 500)),
      (''ch4'', (75, 125, 200)),
      (''c2h6'', (65, 100, 150)),
      (''c2h4'', (50, 100, 200)),
      (''c2h2'', (2, 10, 35)),
      (''co'', (350, 570, 1400)),
      (''co2'', (2500, 4000, 10000))]"

definition TDCG_LIMITS :: "real \<times> real \<times> real" where
  "TDCG_LIMITS = (720, 1920, 4630)"

definition CONDITION_LABELS :: "(int \<times> string) list" where
  "CONDITION_LABELS =
     [(1, ''Condicion 1: Funcionamiento normal''),
      (2, ''Condicion 2: Normal con gases por encima de valores tipicos''),
      (3, ''Condicion 3: Anormal, se requiere investigacion''),
      (4, ''Condicion 4: Peligrosa, se requiere accion inmediata'')]"

definition gas_condition :: "string \<Rightarrow> real \<Rightarrow> int" where
  "gas_condition gas_name v =
     (case map_of GAS_LIMITS gas_name of
        None \<Rightarrow> 1
      | Some (l0, l1, l2) \<Rightarrow>
          if v \<le> l0 then 1
          else if v \<le> l1 then 2
          else if v \<le> l2 then 3
          else 4)"

definition tdcg_condition :: "real \<Rightarrow> int" where
  "tdcg_condition tdcg =
     (case TDCG_LIMITS of (l0, l1, l2) \<Rightarrow>
        if tdcg \<le> l0 then 1
        else if tdcg \<le> l1 then 2
        else if tdcg \<le> l2 then 3
        else 4)"

definition suggest_fault_type :: "GasReading \<Rightarrow> FaultType" where
  "suggest_fault_type reading =
     (let r1 = ratio_ch4_h2 reading;
          r2 = ratio_c2h2_c2h4 reading;
          r3 = ratio_c2h4_c2h6 reading
      in if c2h2 reading > 10 then (if r2 > 2 then D1 else D2)
         else if r3 > 4 then T3
         else if r3 > 1 then T2
         else if r1 > 1 \<and> r3 \<le> 1 then T1
         else if h2 reading > 100 \<and> r1 < 1 / 10 then PD
         else S)"

definition ieee_diagnose :: "GasReading \<Rightarrow> error + MethodResult" where
  "ieee_diagnose reading =
     (let gas_values =
            [(''h2'', h2 reading), (''ch4'', ch4 reading), (''c2h6'', c2h6 reading),
             (''c2h4'', c2h4 reading), (''c2h2'', c2h2 reading), (''co'', co reading),
             (''co2'', co2 reading)];
          individual_conditions = map (\<lambda>(gas, val). (gas, gas_condition gas val)) gas_values;
          tdcg = total_combustible_gases reading;
          tdcg_cond = tdcg_condition tdcg
      in case py_max (map snd individual_conditions) of
           None \<Rightarrow> Inl (ValueError EmptySequence)
         | Some m \<Rightarrow>
             (let overall = max m tdcg_cond;
                  fault = (if overall \<le> 2 then N else suggest_fault_type reading)
              in case map_of CONDITION_LABELS overall of
                   None \<Rightarrow> Inl KeyError
                 | Some descr \<Rightarrow>
                     Inr \<lparr> method_name = ieee_METHOD_NAME,
                           fault_type = fault,
                           description = descr,
                           details =
                             [(''overall_condition'', DInt overall),
                              (''tdcg_ppm'', DFloat (py_round tdcg 2)),
                              (''tdcg_condition'', DInt tdcg_cond),
                              (''individual_conditions'',
                                 DDict (map (\<lambda>(gas, c). (gas, DInt c)) individual_conditions))] \<rparr>))"

subsection \<open>\<open>iec_60599.py\<close>\<close>

definition iec_METHOD_NAME :: string where
  "iec_METHOD_NAME = ''IEC 60599:2022''"

definition iec_code_r1 :: "real \<Rightarrow> int" where
  "iec_code_r1 ratio = (if ratio < 1 / 10 then 0 else if ratio \<le> 1 then 1 else 2)"

definition iec_code_r2 :: "real \<Rightarrow> int" where
  "iec_code_r2 ratio = (if ratio < 1 / 10 then 0 else if ratio \<le> 1 then 1 else 2)"

definition iec_code_r5 :: "real \<Rightarrow> int" where
  "iec_code_r5 ratio = (if ratio < 1 then 0 else if ratio \<le> 3 then 1 else 2)"

definition iec_DIAGNOSIS_TABLE :: "((int \<times> int \<times> int) \<times> FaultType \<times> string) list" where
  "iec_DIAGNOSIS_TABLE =
     [((0, 0, 0), (PD, ''Descargas parciales de baja energia'')),
      ((1, 0, 0), (D1, ''Descargas de baja energia (chispas)'')),
      ((2, 0, 0), (D1, ''Descargas de baja energia con C2H2 elevado'')),
      ((1, 0, 1), (D2, ''Descargas de alta energia'')),
      ((1, 0, 2), (D2, ''Descargas de alta energia severas'')),
      ((2, 0, 1), (D2, ''Descargas de alta energia con arco'')),
      ((2, 0, 2), (D2, ''Descargas de alta energia con arco severo'')),
      ((0, 1, 0), (T1, ''Falla termica baja temperatura (< 300 '' @ deg_C @ '')'')),
      ((0, 2, 0), (T1, ''Falla termica baja temperatura (< 300 '' @ deg_C @ '')'')),
      ((0, 2, 1), (T2, ''Falla termica media temperatura (300-700 '' @ deg_C @ '')'')),
      ((0, 1, 1), (T2, ''Falla termica media temperatura (300-700 '' @ deg_C @ '')'')),
      ((0, 2, 2), (T3, ''Falla termica alta temperatura (> 700 '' @ deg_C @ '')'')),
      ((0, 1, 2), (T3, ''Falla termica alta temperatura (> 700 '' @ deg_C @ '')'')),
      ((1, 1, 0), (DT, ''Mezcla de descarga y falla termica'')),
      ((2, 1, 0), (DT, ''Mezcla de descarga y falla termica'')),
      ((1, 2, 0), (DT, ''Mezcla de descarga y falla termica'')),
      ((2, 2, 0), (DT, ''Mezcla de descarga y falla termica'')),
      ((1, 1, 1), (DT, ''Mezcla de descarga y falla termica'')),
      ((2, 1, 1), (DT, ''Mezcla de descarga y falla termica'')),
      ((1, 2, 1), (DT, ''Mezcla de descarga y falla termica'')),
      ((2, 2, 1), (DT, ''Mezcla de descarga y falla termica'')),
      ((1, 1, 2), (DT, ''Mezcla de descarga y falla termica'')),
      ((2, 1, 2), (DT, ''Mezcla de descarga y falla termica'')),
      ((1, 2, 2), (DT, ''Mezcla de descarga y falla termica'')),
      ((2, 2, 2), (DT, ''Mezcla de descarga y falla termica''))]"

definition iec_diagnose :: "GasReading \<Rightarrow> MethodResult" where
  "iec_diagnose reading =
     (let r1 = ratio_c2h2_c2h4 reading;
          r2 = ratio_ch4_h2 reading;
          r5 = ratio_c2h4_c2h6 reading;
          c1 = iec_code_r1 r1;
          c2 = iec_code_r2 r2;
          c5 = iec_code_r5 r5;
          (ft, descr) =
            (case map_of iec_DIAGNOSIS_TABLE (c1, c2, c5) of
               Some res \<Rightarrow> res
             | None \<Rightarrow> (N, ''No se identifica un patron de falla definido''))
      in \<lparr> method_name = iec_METHOD_NAME,
           fault_type = ft,
           description = descr,
           details =
             [(''R1_C2H2_C2H4'', DFloat (py_round r1 4)),
              (''R2_CH4_H2'', DFloat (py_round r2 4)),
              (''R5_C2H4_C2H6'', DFloat (py_round r5 4)),
              (''code_R1'', DInt c1),
              (''code_R2'', DInt c2),
              (''code_R5'', DInt c5),
              (''pattern'',
                 DStr (''('' @ str_int c1 @ '', '' @ str_int c2 @ '', '' @ str_int c5 @ '')''))] \<rparr>)"

subsection \<open>\<open>rogers.py\<close>\<close>

definition rogers_METHOD_NAME :: string where
  "rogers_METHOD_NAME = ''Rogers''"

definition rogers_code_r1 :: "real \<Rightarrow> int" where
  "rogers_code_r1 ratio =
     (if ratio < 1 / 10 then 5 else if ratio \<le> 1 then 0 else if ratio \<le> 3 then 1 else 2)"

definition rogers_code_r2 :: "real \<Rightarrow> int" where
  "rogers_code_r2 ratio = (if ratio < 1 / 10 then 0 else if ratio \<le> 3 then 1 else 2)"

definition rogers_code_r5 :: "real \<Rightarrow> int" where
  "rogers_code_r5 ratio = (if ratio < 1 then 0 else if ratio \<le> 3 then 1 else 2)"

definition rogers_DIAGNOSIS_TABLE :: "((int \<times> int \<times> int) \<times> FaultType \<times> string) list" where
  "rogers_DIAGNOSIS_TABLE =
     [((0, 0, 0), (N, ''Deterioro normal por envejecimiento'')),
      ((5, 0, 0), (PD, ''Descargas parciales de baja energia'')),
      ((0, 1, 0), (D1, ''Descargas de baja energia'')),
      ((1, 1, 0), (D1, ''Descargas de baja energia'')),
      ((0, 2, 0), (D2, ''Descargas de alta energia (arco)'')),
      ((0, 1, 1), (D2, ''Descargas de alta energia'')),
      ((0, 1, 2), (D2, ''Descargas de alta energia con calentamiento'')),
      ((0, 2, 1), (D2, ''Descargas de alta energia'')),
      ((0, 2, 2), (D2, ''Descargas de alta energia'')),
      ((1, 0, 0), (T1, ''Falla termica menor a 300 '' @ deg_C)),
      ((2, 0, 0), (T1, ''Falla termica menor a 300 '' @ deg_C @ '' (CH4 alto)'')),
      ((2, 0, 1), (T2, ''Falla termica entre 300 y 700 '' @ deg_C)),
      ((1, 0, 1), (T2, ''Falla termica entre 300 y 700 '' @ deg_C)),
      ((2, 0, 2), (T3, ''Falla termica mayor a 700 '' @ deg_C)),
      ((1, 0, 2), (T3, ''Falla termica mayor a 700 '' @ deg_C))]"

definition rogers_diagnose :: "GasReading \<Rightarrow> MethodResult" where
  "rogers_diagnose reading =
     (let r1 = ratio_ch4_h2 reading;
          r2 = ratio_c2h2_c2h4 reading;
          r5 = ratio_c2h4_c2h6 reading;
          c1 = rogers_code_r1 r1;
          c2 = rogers_code_r2 r2;
          c5 = rogers_code_r5 r5;
          (ft, descr) =
            (case map_of rogers_DIAGNOSIS_TABLE (c1, c2, c5) of
               Some res \<Rightarrow> res
             | None \<Rightarrow> (N, ''Combinacion de codigos sin diagnostico definido''))
      in \<lparr> method_name = rogers_METHOD_NAME,
           fault_type = ft,
           description = descr,
           details =
             [(''R1_CH4_H2'', DFloat (py_round r1 4)),
              (''R2_C2H2_C2H4'', DFloat (py_round r2 4)),
              (''R5_C2H4_C2H6'', DFloat (py_round r5 4)),
              (''code_R1'', DInt c1),
              (''code_R2'', DInt c2),
              (''code_R5'', DInt c5),
              (''pattern'',
                 DStr (''('' @ str_int c1 @ '', '' @ str_int c2 @ '', '' @ str_int c5 @ '')''))] \<rparr>)"

subsection \<open>\<open>dornenburg.py\<close>\<close>

definition dornenburg_METHOD_NAME :: string where
  "dornenburg_METHOD_NAME = ''Dornenburg''"

definition L1_LIMITS :: "(string \<times> int) list" where
  "L1_LIMITS =
     [(''h2'', 100), (''ch4'', 120), (''c2h2'', 1), (''c2h4'', 50), (''c2h6'', 65), (''co'', 350)]"

text \<open>
  The generator inside \<open>any\<close>: the limits are visited in order, a gas missing from
  \<open>gas_map\<close> raises, and the first gas above its limit ends the search.
\<close>

fun any_exceeds :: "(string \<times> real) list \<Rightarrow> (string \<times> int) list \<Rightarrow> error + bool" where
  "any_exceeds gas_map [] = Inr False"
| "any_exceeds gas_map ((gas, limit) # rest) =
     (case map_of gas_map gas of
        None \<Rightarrow> Inl KeyError
      | Some v \<Rightarrow> if v > of_int limit then Inr True else any_exceeds gas_map rest)"

definition exceeds_l1 :: "GasReading \<Rightarrow> error + bool" where
  "exceeds_l1 reading =
     (let gas_map =
            [(''h2'', h2 reading), (''ch4'', ch4 reading), (''c2h2'', c2h2 reading),
             (''c2h4'', c2h4 reading), (''c2h6'', c2h6 reading), (''co'', co reading)]
      in any_exceeds gas_map L1_LIMITS)"

definition dornenburg_classify :: "real \<Rightarrow> real \<Rightarrow> real \<Rightarrow> real \<Rightarrow> FaultType \<times> string" where
  "dornenburg_classify r1 r2 r3 r4 =
     (if r1 > 1 \<and> r2 < 1 / 10 then
        (if r4 > 4 / 10 then (T2, ''Falla termica (descomposicion de aceite)'')
         else (T1, ''Falla termica de baja temperatura''))
      else if r1 < 1 / 10 \<and> r2 < 1 / 10 then (PD, ''Descargas parciales (efecto corona)'')
      else if r2 > 1 / 10 \<and> r3 > 3 / 10 then
        (D2, ''Descargas de alta energia (arco electrico)'')
      else if r2 > 1 / 10 then (D1, ''Descargas de baja energia'')
      else if r1 > 1 then (T1, ''Posible falla termica'')
      else (N, ''Sin patron de falla definido por Dornenburg''))"

definition dornenburg_diagnose :: "GasReading \<Rightarrow> error + MethodResult" where
  "dornenburg_diagnose reading =
     (case exceeds_l1 reading of
        Inl e \<Rightarrow> Inl e
      | Inr False \<Rightarrow>
          Inr \<lparr> method_name = dornenburg_METHOD_NAME,
                fault_type = N,
                description = ''Gases por debajo de limites L1; metodo no aplicable'',
                details =
                  [(''applicable'', DBool False),
                   (''l1_limits'', DDict (map (\<lambda>(gas, limit). (gas, DInt limit)) L1_LIMITS))] \<rparr>
      | Inr True \<Rightarrow>
          (let r1 = ratio_ch4_h2 reading;
               r2 = ratio_c2h2_c2h4 reading;
               r3 = ratio_c2h2_ch4 reading;
               r4 = ratio_c2h6_c2h2 reading;
               (ft, descr) = dornenburg_classify r1 r2 r3 r4
           in Inr \<lparr> method_name = dornenburg_METHOD_NAME,
                    fault_type = ft,
                    description = descr,
                    details =
                      [(''applicable'', DBool True),
                       (''R1_CH4_H2'', DFloat (py_round r1 4)),
                       (''R2_C2H2_C2H4'', DFloat (py_round r2 4)),
                       (''R3_C2H2_CH4'', DFloat (py_round r3 4)),
                       (''R4_C2H6_C2H2'', DFloat (py_round r4 4))] \<rparr>))"

subsection \<open>\<open>duval_triangle.py\<close>\<close>

definition triangle_METHOD_NAME :: string where
  "triangle_METHOD_NAME = ''Triangulo de Duval 1''"

definition triangle_classify_zone :: "real \<Rightarrow> real \<Rightarrow> real \<Rightarrow> FaultType \<times> string" where
  "triangle_classify_zone pct_ch4 pct_c2h4 pct_c2h2 =
     (if pct_c2h2 > 13 then
        (if pct_c2h4 < 23 then (D1, ''Descargas de baja energia'')
         else if pct_c2h2 > 29 then (D2, ''Descargas de alta energia'')
         else (D2, ''Descargas de alta energia''))
      else if pct_c2h2 \<le> 4 then
        (if pct_c2h4 < 20 then
           (if pct_ch4 > 98 then (PD, ''Descargas parciales'')
            else (T1, ''Falla termica < 300 '' @ deg_C))
         else if pct_c2h4 < 50 then (T2, ''Falla termica 300-700 '' @ deg_C)
         else (T3, ''Falla termica > 700 '' @ deg_C))
      else if pct_c2h4 < 23 then (D1, ''Descargas de baja energia'')
      else (DT, ''Mezcla de falla termica y electrica''))"

definition triangle_diagnose :: "GasReading \<Rightarrow> MethodResult" where
  "triangle_diagnose reading =
     (case duval_triangle_percentages reading of (pct_ch4, pct_c2h4, pct_c2h2) \<Rightarrow>
        if pct_ch4 = 0 \<and> pct_c2h4 = 0 \<and> pct_c2h2 = 0 then
          \<lparr> method_name = triangle_METHOD_NAME,
            fault_type = N,
            description = ''Gases insuficientes para aplicar el triangulo'',
            details =
              [(''applicable'', DBool False),
               (''pct_CH4'', DFloat 0), (''pct_C2H4'', DFloat 0), (''pct_C2H2'', DFloat 0)] \<rparr>
        else
          (case triangle_classify_zone pct_ch4 pct_c2h4 pct_c2h2 of (ft, descr) \<Rightarrow>
             \<lparr> method_name = triangle_METHOD_NAME,
               fault_type = ft,
               description = descr,
               details =
                 [(''applicable'', DBool True),
                  (''pct_CH4'', DFloat (py_round pct_ch4 2)),
                  (''pct_C2H4'', DFloat (py_round pct_c2h4 2)),
                  (''pct_C2H2'', DFloat (py_round pct_c2h2 2))] \<rparr>))"

subsection \<open>\<open>duval_pentagon.py\<close>\<close>

definition pentagon_METHOD_NAME :: string where
  "pentagon_METHOD_NAME = ''Pentagono de Duval 1''"

definition pentagon_classify_zone ::
  "real \<Rightarrow> real \<Rightarrow> real \<Rightarrow> real \<Rightarrow> real \<Rightarrow> FaultType \<times> string" where
  "pentagon_classify_zone pct_h2 pct_ch4 pct_c2h6 pct_c2h4 pct_c2h2 =
     (if pct_h2 > 60 \<and> pct_c2h2 < 5 \<and> pct_c2h4 < 10 then
        (PD, ''Descargas parciales (predomina H2)'')
      else if pct_c2h2 > 15 then
        (if pct_c2h4 > 25 then (D2, ''Descargas de alta energia'')
         else (D1, ''Descargas de baja energia''))
      else if pct_c2h2 > 5 then
        (if pct_c2h4 > 30 then (D2, ''Descargas de alta energia (arco)'')
         else if pct_h2 > 30 then (D1, ''Descargas de baja energia'')
         else (DT, ''Mezcla de descarga y falla termica''))
      else if pct_c2h4 > 50 then (T3, ''Falla termica > 700 '' @ deg_C)
      else if pct_c2h4 > 25 then
        (if pct_c2h6 > 20 then (T2, ''Falla termica 300-700 '' @ deg_C)
         else (T3, ''Falla termica > 700 '' @ deg_C))
      else if pct_c2h4 > 10 then
        (if pct_c2h6 > 30 then (S, ''Sobrecalentamiento'')
         else (T2, ''Falla termica 300-700 '' @ deg_C))
      else if pct_ch4 > 40 then
        (if pct_c2h6 > 20 then (S, ''Sobrecalentamiento (aceite/celulosa)'')
         else (T1, ''Falla termica < 300 '' @ deg_C))
      else if pct_c2h6 > 40 then (S, ''Sobrecalentamiento'')
      else if pct_h2 > 40 then (PD, ''Descargas parciales'')
      else (T1, ''Falla termica de baja temperatura''))"

definition pentagon_diagnose :: "GasReading \<Rightarrow> MethodResult" where
  "pentagon_diagnose reading =
     (case duval_pentagon_percentages reading of
        (pct_h2, pct_ch4, pct_c2h6, pct_c2h4, pct_c2h2) \<Rightarrow>
        if pct_h2 = 0 \<and> pct_ch4 = 0 \<and> pct_c2h6 = 0 then
          \<lparr> method_name = pentagon_METHOD_NAME,
            fault_type = N,
            description = ''Gases insuficientes para aplicar el pentagono'',
            details =
              [(''applicable'', DBool False),
               (''pct_H2'', DFloat 0), (''pct_CH4'', DFloat 0), (''pct_C2H6'', DFloat 0),
               (''pct_C2H4'', DFloat 0), (''pct_C2H2'', DFloat 0)] \<rparr>
        else
          (case pentagon_classify_zone pct_h2 pct_ch4 pct_c2h6 pct_c2h4 pct_c2h2 of
             (ft, descr) \<Rightarrow>
             \<lparr> method_name = pentagon_METHOD_NAME,
               fault_type = ft,
               description = descr,
               details =
                 [(''applicable'', DBool True),
                  (''pct_H2'', DFloat (py_round pct_h2 2)),
                  (''pct_CH4'', DFloat (py_round pct_ch4 2)),
                  (''pct_C2H6'', DFloat (py_round pct_c2h6 2)),
                  (''pct_C2H4'', DFloat (py_round pct_c2h4 2)),
                  (''pct_C2H2'', DFloat (py_round pct_c2h2 2))] \<rparr>))"

section \<open>\<open>normative_diagnosis_service.py\<close>\<close>

record NormativeDiagnosisResult =
  results :: "MethodResult list"
  consensus_fault :: FaultType
  vote_counts :: "(string \<times> nat) list"
  agreement_pct :: real

text \<open>
  A dictionary is an association list in insertion order: storing under a key that is
  present replaces the value in place, a new key goes to the end.
\<close>

fun dict_set :: "'k \<Rightarrow> 'v \<Rightarrow> ('k \<times> 'v) list \<Rightarrow> ('k \<times> 'v) list" where
  "dict_set k v [] = [(k, v)]"
| "dict_set k v (p # ps) = (if fst p = k then (k, v) # ps else p # dict_set k v ps)"

definition dict_get :: "('k \<times> 'v) list \<Rightarrow> 'k \<Rightarrow> 'v \<Rightarrow> 'v" where
  "dict_get d k dflt = (case map_of d k of None \<Rightarrow> dflt | Some v \<Rightarrow> v)"

text \<open>\<open>collections.Counter(xs)\<close>: one pass over \<open>xs\<close>, each element adding one to its count.\<close>

definition Counter :: "'a list \<Rightarrow> ('a \<times> nat) list" where
  "Counter xs = foldl (\<lambda>d x. dict_set x (dict_get d x 0 + 1) d) [] xs"

text \<open>
  \<open>most_common(1)\<close> is the builtin \<open>max\<close> over the items with the count as key: the running
  best is replaced only by an item whose count is strictly greater, and an empty counter
  gives an empty list.
\<close>

fun max_by_count :: "'a \<times> nat \<Rightarrow> ('a \<times> nat) list \<Rightarrow> 'a \<times> nat" where
  "max_by_count best [] = best"
| "max_by_count best (x # xs) =
     (if snd best < snd x then max_by_count x xs else max_by_count best xs)"

definition most_common1 :: "('a \<times> nat) list \<Rightarrow> ('a \<times> nat) list" where
  "most_common1 items = (case items of [] \<Rightarrow> [] | x # xs \<Rightarrow> [max_by_count x xs])"

definition compute_consensus ::
  "MethodResult list \<Rightarrow> error + (FaultType \<times> (string \<times> nat) list \<times> real)" where
  "compute_consensus rs =
     (let votes = map fault_type rs;
          counter = Counter votes;
          total = length votes
      in case most_common1 counter of
           [] \<Rightarrow> Inl IndexError
         | (most_common_fault, most_common_count) # _ \<Rightarrow>
             (let vote_dict = foldl (\<lambda>d (ft, c). dict_set (FaultType_name ft) c d) [] counter;
                  agreement =
                    (if total > 0 then (real most_common_count / real total) * 100 else 0)
              in Inr (most_common_fault, vote_dict, py_round agreement 1)))"

definition METHODS :: "(GasReading \<Rightarrow> error + MethodResult) list" where
  "METHODS =
     [ieee_diagnose,
      \<lambda>reading. Inr (iec_diagnose reading),
      \<lambda>reading. Inr (rogers_diagnose reading),
      dornenburg_diagnose,
      \<lambda>reading. Inr (triangle_diagnose reading),
      \<lambda>reading. Inr (pentagon_diagnose reading)]"

text \<open>The list comprehension over the methods: the first exception ends it.\<close>

fun run_methods ::
  "(GasReading \<Rightarrow> error + MethodResult) list \<Rightarrow> GasReading \<Rightarrow> error + MethodResult list" where
  "run_methods [] reading = Inr []"
| "run_methods (m # ms) reading =
     (case m reading of
        Inl e \<Rightarrow> Inl e
      | Inr x \<Rightarrow>
          (case run_methods ms reading of
             Inl e \<Rightarrow> Inl e
           | Inr xs \<Rightarrow> Inr (x # xs)))"

definition diagnose_all :: "GasReading \<Rightarrow> error + NormativeDiagnosisResult" where
  "diagnose_all reading =
     (case run_methods METHODS reading of
        Inl e \<Rightarrow> Inl e
      | Inr rs \<Rightarrow>
          (case compute_consensus rs of
             Inl e \<Rightarrow> Inl e
           | Inr (consensus, counts, pct) \<Rightarrow>
               Inr \<lparr> results = rs,
                     consensus_fault = consensus,
                     vote_counts = counts,
                     agreement_pct = pct \<rparr>))"

text \<open>The loop of \<open>diagnose_single\<close>: each method is run in turn until one bears the name.\<close>

fun diagnose_single_loop ::
  "(GasReading \<Rightarrow> error + MethodResult) list \<Rightarrow> GasReading \<Rightarrow> string
     \<Rightarrow> error + MethodResult option" where
  "diagnose_single_loop [] reading nm = Inr None"
| "diagnose_single_loop (m # ms) reading nm =
     (case m reading of
        Inl e \<Rightarrow> Inl e
      | Inr result \<Rightarrow>
          if lower (method_name result) = lower nm then Inr (Some result)
          else diagnose_single_loop ms reading nm)"

definition diagnose_single :: "GasReading \<Rightarrow> string \<Rightarrow> error + MethodResult option" where
  "diagnose_single reading nm = diagnose_single_loop METHODS reading nm"

section \<open>The statistical pipeline\<close>

subsection \<open>\<open>data_preparation.py\<close>\<close>

definition FAULT_LABELS :: "string list" where
  "FAULT_LABELS = map FaultType_name FaultType_members"

definition FEATURE_NAMES :: "string list" where
  "FEATURE_NAMES = field_names"

subsection \<open>numpy and scikit-learn\<close>

text \<open>
  A feature matrix is the list of its rows. A label is a class index: the ordinal of a
  fault type, a natural number, which is all that \<open>np.bincount\<close> accepts.
\<close>

type_synonym matrix = "real list list"
type_synonym labels = "nat list"

definition np_unique :: "labels \<Rightarrow> nat list" where
  "np_unique y = sort (remdups y)"

definition np_bincount :: "labels \<Rightarrow> nat list" where
  "np_bincount y = (if y = [] then [] else map (count_list y) [0 ..< Suc (fold max y 0)])"

text \<open>Indexing an array with an array of indices; an index past the end raises.\<close>

fun np_take :: "nat list \<Rightarrow> nat list \<Rightarrow> error + nat list" where
  "np_take a [] = Inr []"
| "np_take a (i # idx) =
     (if i < length a then
        (case np_take a idx of Inl e \<Rightarrow> Inl e | Inr r \<Rightarrow> Inr (a ! i # r))
      else Inl IndexError)"

text \<open>The builtin \<open>min\<close> of a sequence; it raises on an empty one.\<close>

fun py_min :: "nat list \<Rightarrow> error + nat" where
  "py_min [] = Inl (ValueError EmptySequence)"
| "py_min (x # xs) = Inr (fold min xs x)"

definition np_mean :: "real list \<Rightarrow> real" where
  "np_mean xs = sum_list xs / real (length xs)"

definition np_std :: "real list \<Rightarrow> real" where
  "np_std xs = sqrt (np_mean (map (\<lambda>x. (x - np_mean xs)\<^sup>2) xs))"

text \<open>
  The four candidate pipelines of \<open>_build_pipelines\<close>, each a standard scaler followed by
  one classifier with fixed hyperparameters.
\<close>

datatype algorithm = RandomForest | SVM | KNN | MLP

definition build_pipelines :: "(string \<times> algorithm) list" where
  "build_pipelines =
     [(''Random Forest'', RandomForest), (''SVM'', SVM), (''KNN'', KNN), (''MLP'', MLP)]"

text \<open>
  scikit-learn is a parameter of the model: \<open>cross_val_score\<close> gives the per-fold accuracies
  of an unfitted pipeline for a number of stratified folds, \<open>fit\<close> gives the fitted
  pipeline, and either may raise.
\<close>

record 'p sklearn =
  cross_val_score :: "algorithm \<Rightarrow> matrix \<Rightarrow> labels \<Rightarrow> int \<Rightarrow> error + real list"
  fit :: "algorithm \<Rightarrow> matrix \<Rightarrow> labels \<Rightarrow> error + 'p"

text \<open>The calls into scikit-learn, in the order they are made.\<close>

datatype event = CrossValidated string int | Fitted string

subsection \<open>\<open>model_trainer.py\<close>\<close>

record 'p TrainedModel =
  name :: string
  pipeline :: 'p
  cv_accuracy :: real
  cv_std :: real
  cv_scores :: "real list"

record 'p TrainingResult =
  models :: "'p TrainedModel list"
  best_model :: "'p TrainedModel"
  feature_names :: "string list"
  label_names :: "string list"
  n_samples :: nat
  n_classes :: nat

text \<open>Lines 189 to 193 of \<open>train_all\<close>: the fold count adapted to the smallest class.\<close>

definition trainer_effective_folds :: "int \<Rightarrow> labels \<Rightarrow> nat list \<Rightarrow> error + int" where
  "trainer_effective_folds n_folds y unique_classes =
     (case np_take (np_bincount y) unique_classes of
        Inl e \<Rightarrow> Inl e
      | Inr counts \<Rightarrow>
          (case py_min counts of
             Inl e \<Rightarrow> Inl e
           | Inr min_class_count \<Rightarrow>
               (let effective_folds = min n_folds (int min_class_count)
                in if effective_folds < 2 then Inr 2 else Inr effective_folds)))"

text \<open>
  The loop over the candidates: cross-validate, fit on all the data, append the trained
  model. The log of calls is threaded through.
\<close>

fun train_loop ::
  "'p sklearn \<Rightarrow> (string \<times> algorithm) list \<Rightarrow> matrix \<Rightarrow> labels \<Rightarrow> int
     \<Rightarrow> 'p TrainedModel list \<Rightarrow> event list
     \<Rightarrow> (error + 'p TrainedModel list) \<times> event list" where
  "train_loop sk [] X y folds trained calls = (Inr trained, calls)"
| "train_loop sk ((nm, pl) # rest) X y folds trained calls =
     (case cross_val_score sk pl X y folds of
        Inl e \<Rightarrow> (Inl e, calls @ [CrossValidated nm folds])
      | Inr scores \<Rightarrow>
          (case fit sk pl X y of
             Inl e \<Rightarrow> (Inl e, calls @ [CrossValidated nm folds, Fitted nm])
           | Inr fitted \<Rightarrow>
               train_loop sk rest X y folds
                 (trained @
                    [\<lparr> name = nm,
                       pipeline = fitted,
                       cv_accuracy = py_round (np_mean scores) 4,
                       cv_std = py_round (np_std scores) 4,
                       cv_scores = map (\<lambda>s. py_round s 4) scores \<rparr>])
                 (calls @ [CrossValidated nm folds, Fitted nm])))"

text \<open>
  \<open>trained.sort(key=..., reverse=True)\<close>: a stable sort by descending accuracy, models of
  equal accuracy keeping their order.
\<close>

definition sort_by_accuracy_desc :: "'p TrainedModel list \<Rightarrow> 'p TrainedModel list" where
  "sort_by_accuracy_desc trained = sort_key (\<lambda>m. - cv_accuracy m) trained"

definition train_all ::
  "'p sklearn \<Rightarrow> int \<Rightarrow> matrix \<Rightarrow> labels \<Rightarrow> (error + 'p TrainingResult) \<times> event list" where
  "train_all sk n_folds X y =
     (let n = length X;
          unique_classes = np_unique y;
          nc = length unique_classes
      in if int n < n_folds then (Inl (ValueError (TooFewSamples n_folds n)), [])
         else if nc < 2 then (Inl (ValueError (TooFewClasses nc)), [])
         else
           (case trainer_effective_folds n_folds y unique_classes of
              Inl e \<Rightarrow> (Inl e, [])
            | Inr effective_folds \<Rightarrow>
                (case train_loop sk build_pipelines X y effective_folds [] [] of
                   (Inl e, calls) \<Rightarrow> (Inl e, calls)
                 | (Inr trained, calls) \<Rightarrow>
                     (let trained = sort_by_accuracy_desc trained
                      in case trained of
                        [] \<Rightarrow> (Inl IndexError, calls)
                      | best # others \<Rightarrow>
                          (Inr \<lparr> models = trained,
                                 best_model = best,
                                 feature_names = FEATURE_NAMES,
                                 label_names = FAULT_LABELS,
                                 n_samples = n,
                                 n_classes = nc \<rparr>, calls)))))"

subsection \<open>\<open>model_evaluator.py\<close>\<close>

text \<open>
  Lines 110 to 114 of \<open>evaluate\<close>: the evaluator computes its fold count from the labels
  alone, before it asks for the out-of-fold predictions.
\<close>

definition evaluator_effective_folds :: "int \<Rightarrow> labels \<Rightarrow> error + int" where
  "evaluator_effective_folds n_folds y =
     (let unique_classes = np_unique y
      in case np_take (np_bincount y) unique_classes of
           Inl e \<Rightarrow> Inl e
         | Inr counts \<Rightarrow>
             (case py_min counts of
                Inl e \<Rightarrow> Inl e
              | Inr min_class_count \<Rightarrow>
                  (let effective_folds = min n_folds (int min_class_count)
                   in if effective_folds < 2 then Inr 2 else Inr effective_folds)))"

section \<open>Properties of the ratio utilities\<close>



lemma DBL_OVERFLOW_large: "10 ^ 9 < DBL_OVERFLOW"
proof -
  have "(2::real) ^ 970 \<le> 2 ^ 1023" by (rule power_increasing) simp_all
  moreover have "(2::real) ^ 1024 = 2 * 2 ^ 1023" by simp
  ultimately have "(2::real) ^ 1023 \<le> DBL_OVERFLOW" by (simp add: DBL_OVERFLOW_def)
  moreover have "(2::real) ^ 30 \<le> 2 ^ 1023" by (rule power_increasing) simp_all
  moreover have "(10::real) ^ 9 < 2 ^ 30" by simp
  ultimately show ?thesis by linarith
qed

lemma fl_finite: "- DBL_OVERFLOW < x \<Longrightarrow> x < DBL_OVERFLOW \<Longrightarrow> fl x = Finite x"
  by (simp add: fl_def)

lemma fl_small: "\<bar>x\<bar> \<le> 10 ^ 9 \<Longrightarrow> fl x = Finite x"
  using DBL_OVERFLOW_large by (intro fl_finite) linarith+


text \<open>
  C1. \<open>safe_ratio\<close> returns the quotient when the denominator is positive; when the
  denominator is zero or negative it returns 999 for a positive numerator and 0 otherwise.
  In particular \<open>safe_ratio x 0\<close> is 999 for positive \<open>x\<close> and 0 for \<open>x \<le> 0\<close>.
\<close>

theorem safe_ratio_spec:
  "(0 < d \<longrightarrow> safe_ratio n d = n / d) \<and>
   (d \<le> 0 \<and> 0 < n \<longrightarrow> safe_ratio n d = 999) \<and>
   (d \<le> 0 \<and> n \<le> 0 \<longrightarrow> safe_ratio n d = 0) \<and>
   (0 < n \<longrightarrow> safe_ratio n 0 = 999) \<and>
   (n \<le> 0 \<longrightarrow> safe_ratio n 0 = 0)"
  by (simp add: safe_ratio_def)

theorem safe_ratio_spec_witness:
  "safe_ratio 6 3 = 2 \<and> safe_ratio 5 (- 1) = 999 \<and> safe_ratio (- 4) (- 1) = 0 \<and>
   safe_ratio 5 0 = 999 \<and> safe_ratio 0 0 = 0"
  using safe_ratio_spec [of 3 6] safe_ratio_spec [of "- 1" 5] safe_ratio_spec [of "- 1" "- 4"]
    safe_ratio_spec [of 0 5] safe_ratio_spec [of 0 0]
  by simp

section \<open>Dictionaries and counters\<close>

lemma map_of_dict_set: "map_of (dict_set k v d) = (map_of d)(k \<mapsto> v)"
  by (induction d) (auto simp: fun_eq_iff)

lemma keys_dict_set:
  "map fst (dict_set k v d) = (if k \<in> fst ` set d then map fst d else map fst d @ [k])"
  by (induction d) auto

lemma sum_dict_set:
  "sum_list (map snd (dict_set k v d)) + dict_get d k 0 = sum_list (map snd d) + (v::nat)"
  by (induction d) (auto simp: dict_get_def)

lemma Counter_snoc:
  "Counter (xs @ [x]) = dict_set x (dict_get (Counter xs) x 0 + 1) (Counter xs)"
  by (simp add: Counter_def)

lemma Counter_Nil: "Counter [] = []"
  by (simp add: Counter_def)

lemma map_of_Counter:
  "map_of (Counter xs) x = (if x \<in> set xs then Some (count_list xs x) else None)"
proof (induction xs arbitrary: x rule: rev_induct)
  case Nil
  show ?case by (simp add: Counter_Nil)
next
  case (snoc a xs)
  show ?case
    using snoc.IH [of x] snoc.IH [of a]
    by (auto simp: Counter_snoc map_of_dict_set dict_get_def split: option.splits)
qed

lemma sum_Counter: "sum_list (map snd (Counter xs)) = length xs"
proof (induction xs rule: rev_induct)
  case Nil
  show ?case by (simp add: Counter_Nil)
next
  case (snoc a xs)
  show ?case
    using sum_dict_set [of a "dict_get (Counter xs) a 0 + 1" "Counter xs"] snoc.IH
    by (simp add: Counter_snoc)
qed

lemma keys_Counter_set: "fst ` set (Counter xs) = set xs"
  using map_of_Counter [of xs]
  by (auto simp: dom_map_of_conv_image_fst [symmetric] dom_def split: if_splits)

lemma distinct_Counter: "distinct (map fst (Counter xs))"
proof (induction xs rule: rev_induct)
  case Nil
  show ?case by (simp add: Counter_Nil)
next
  case (snoc a xs)
  then show ?case
    by (simp add: Counter_snoc keys_dict_set)
qed

lemma keys_Counter_order:
  "map fst (Counter xs) = pre @ k # post \<Longrightarrow>
     \<exists>i < length xs. xs ! i = k \<and> set (take i xs) = set pre"
proof (induction xs arbitrary: post rule: rev_induct)
  case Nil
  then show ?case by (simp add: Counter_Nil)
next
  case (snoc a xs)
  show ?case
  proof (cases "a \<in> set xs")
    case True
    then have "map fst (Counter (xs @ [a])) = map fst (Counter xs)"
      by (simp add: Counter_snoc keys_dict_set keys_Counter_set)
    with snoc.prems have "map fst (Counter xs) = pre @ k # post" by simp
    from snoc.IH [OF this] obtain i where "i < length xs" "xs ! i = k" "set (take i xs) = set pre"
      by blast
    then show ?thesis
      by (intro exI [of _ i]) (simp add: nth_append)
  next
    case False
    then have keys: "map fst (Counter xs) @ [a] = pre @ k # post"
      using snoc.prems by (simp add: Counter_snoc keys_dict_set keys_Counter_set)
    show ?thesis
    proof (cases post rule: rev_cases)
      case Nil
      with keys have "k = a" "map fst (Counter xs) = pre" by simp_all
      then have "set pre = set xs" using keys_Counter_set [of xs] by (metis set_map)
      with \<open>k = a\<close> show ?thesis
        by (intro exI [of _ "length xs"]) simp
    next
      case (snoc post' b)
      with keys have "map fst (Counter xs) = pre @ k # post'" by simp
      from snoc.IH [OF this] obtain i where "i < length xs" "xs ! i = k" "set (take i xs) = set pre"
        by blast
      then show ?thesis
        by (intro exI [of _ i]) (simp add: nth_append)
    qed
  qed
qed

lemma max_by_count_split:
  "\<exists>pre post. b # xs = pre @ max_by_count b xs # post \<and>
     (\<forall>p \<in> set pre. snd p < snd (max_by_count b xs)) \<and>
     (\<forall>p \<in> set post. snd p \<le> snd (max_by_count b xs))"
proof (induction xs arbitrary: b)
  case Nil
  have "[b] = [] @ max_by_count b [] # []" by simp
  then show ?case by fastforce
next
  case (Cons x xs)
  show ?case
  proof (cases "snd b < snd x")
    case True
    then have m: "max_by_count b (x # xs) = max_by_count x xs" by simp
    from Cons.IH [of x] obtain pre post where
      sp: "x # xs = pre @ max_by_count x xs # post"
      and lt: "\<forall>p \<in> set pre. snd p < snd (max_by_count x xs)"
      and le: "\<forall>p \<in> set post. snd p \<le> snd (max_by_count x xs)" by blast
    have "snd x \<le> snd (max_by_count x xs)"
    proof (cases pre)
      case Nil
      have "max_by_count x xs = x"
        using sp unfolding Nil by (metis append_Nil list.inject)
      then show ?thesis by simp
    next
      case (Cons p pre') with sp lt show ?thesis by auto
    qed
    with True have "snd b < snd (max_by_count x xs)" by simp
    with lt have lt': "\<forall>p \<in> set (b # pre). snd p < snd (max_by_count x xs)" by simp
    from sp have "b # x # xs = (b # pre) @ max_by_count x xs # post" by simp
    with lt' le show ?thesis unfolding m by blast
  next
    case False
    then have m: "max_by_count b (x # xs) = max_by_count b xs" by simp
    from Cons.IH [of b] obtain pre post where
      sp: "b # xs = pre @ max_by_count b xs # post"
      and lt: "\<forall>p \<in> set pre. snd p < snd (max_by_count b xs)"
      and le: "\<forall>p \<in> set post. snd p \<le> snd (max_by_count b xs)" by blast
    show ?thesis
    proof (cases pre)
      case Nil
      have mb: "max_by_count b xs = b" and px: "post = xs"
        using sp unfolding Nil by (metis append_Nil list.inject)+
      from False le have "\<forall>p \<in> set (x # xs). snd p \<le> snd b" by (simp add: mb px)
      moreover have "b # x # xs = [] @ b # (x # xs)" by simp
      ultimately show ?thesis unfolding m mb by (metis empty_iff empty_set)
    next
      case (Cons p pre')
      have pb: "p = b" and xs: "xs = pre' @ max_by_count b xs # post"
        using sp unfolding Cons by (metis append_Cons list.inject)+
      from lt Cons pb have bl: "snd b < snd (max_by_count b xs)" by simp
      with False have "snd x < snd (max_by_count b xs)" by simp
      with lt Cons have lt': "\<forall>p \<in> set (b # x # pre'). snd p < snd (max_by_count b xs)"
        by (simp add: pb)
      from xs have "b # x # xs = (b # x # pre') @ max_by_count b xs # post" by simp
      with lt' le show ?thesis unfolding m by blast
    qed
  qed
qed

section \<open>The classifiers never raise\<close>

lemma gas_condition_range: "1 \<le> gas_condition g v \<and> gas_condition g v \<le> 4"
  by (simp add: gas_condition_def split: option.splits prod.splits)

lemma tdcg_condition_range: "1 \<le> tdcg_condition t \<and> tdcg_condition t \<le> 4"
  by (simp add: tdcg_condition_def TDCG_LIMITS_def)

lemma CONDITION_LABELS_total: "1 \<le> c \<Longrightarrow> c \<le> 4 \<Longrightarrow> \<exists>d. map_of CONDITION_LABELS c = Some d"
proof -
  assume "1 \<le> c" "c \<le> 4"
  then have "c = 1 \<or> c = 2 \<or> c = 3 \<or> c = 4" by arith
  then show ?thesis by (auto simp: CONDITION_LABELS_def)
qed

lemma py_max_range:
  "xs \<noteq> [] \<Longrightarrow> \<forall>x \<in> set xs. lo \<le> x \<and> x \<le> hi \<Longrightarrow>
     \<exists>m. py_max xs = Some m \<and> lo \<le> m \<and> m \<le> hi"
proof -
  have fold_range: "lo \<le> fold max ys a \<and> fold max ys a \<le> hi"
    if "\<forall>x \<in> set ys. lo \<le> x \<and> x \<le> hi" "lo \<le> a" "a \<le> hi" for ys a
    using that by (induction ys arbitrary: a) (auto simp: max_def)
  assume "xs \<noteq> []" "\<forall>x \<in> set xs. lo \<le> x \<and> x \<le> hi"
  then show ?thesis
    by (cases xs) (use fold_range in auto)
qed

lemma ieee_diagnose_total:
  "\<exists>res. ieee_diagnose r = Inr res \<and> method_name res = ieee_METHOD_NAME"
proof -
  define conds where "conds =
    map (\<lambda>(gas, val). (gas, gas_condition gas val))
      [(''h2'', h2 r), (''ch4'', ch4 r), (''c2h6'', c2h6 r),
       (''c2h4'', c2h4 r), (''c2h2'', c2h2 r), (''co'', co r),
       (''co2'', co2 r)]"
  have "map snd conds \<noteq> []" by (simp add: conds_def)
  moreover have "\<forall>x \<in> set (map snd conds). 1 \<le> x \<and> x \<le> 4"
    using gas_condition_range by (auto simp: conds_def)
  ultimately obtain m where m: "py_max (map snd conds) = Some m" and "1 \<le> m" "m \<le> 4"
    using py_max_range by blast
  with tdcg_condition_range [of "total_combustible_gases r"]
  have "1 \<le> max m (tdcg_condition (total_combustible_gases r))"
    "max m (tdcg_condition (total_combustible_gases r)) \<le> 4" by auto
  then obtain d where d: "map_of CONDITION_LABELS (max m (tdcg_condition (total_combustible_gases r))) = Some d"
    using CONDITION_LABELS_total by blast
  show ?thesis
    unfolding ieee_diagnose_def Let_def conds_def [symmetric] m option.case d by simp
qed

lemma exceeds_l1_total: "\<exists>b. exceeds_l1 r = Inr b"
  by (auto simp: exceeds_l1_def L1_LIMITS_def)

lemma dornenburg_diagnose_total:
  "\<exists>res. dornenburg_diagnose r = Inr res \<and> method_name res = dornenburg_METHOD_NAME"
proof -
  obtain b where "exceeds_l1 r = Inr b" using exceeds_l1_total by blast
  then show ?thesis
    by (cases b) (simp_all add: dornenburg_diagnose_def Let_def split: prod.splits)
qed

lemma method_names:
  "method_name (iec_diagnose r) = iec_METHOD_NAME"
  "method_name (rogers_diagnose r) = rogers_METHOD_NAME"
  "method_name (triangle_diagnose r) = triangle_METHOD_NAME"
  "method_name (pentagon_diagnose r) = pentagon_METHOD_NAME"
  by (simp_all add: iec_diagnose_def rogers_diagnose_def triangle_diagnose_def
      pentagon_diagnose_def Let_def split: prod.splits)

section \<open>The consensus\<close>

lemma py_round_sixths:
  "py_round (1 / 6 * 100) 1 = 167 / 10"
  "py_round (2 / 6 * 100) 1 = 333 / 10"
  "py_round (3 / 6 * 100) 1 = 50"
  "py_round (4 / 6 * 100) 1 = 667 / 10"
  "py_round (5 / 6 * 100) 1 = 833 / 10"
  "py_round (6 / 6 * 100) 1 = 100"
  by (simp_all add: py_round_def round_half_even_def Let_def)

lemma inj_FaultType_name: "inj FaultType_name"
proof (rule injI)
  fix x y assume "FaultType_name x = FaultType_name y"
  then show "x = y" by (cases x; cases y; simp)
qed

lemma dict_set_new: "k \<notin> fst ` set d \<Longrightarrow> dict_set k v d = d @ [(k, v)]"
  by (induction d) auto

lemma foldl_dict_set_map:
  "distinct (map fst its) \<Longrightarrow> inj f \<Longrightarrow> fst ` set acc \<inter> f ` fst ` set its = {} \<Longrightarrow>
     foldl (\<lambda>d (k, c). dict_set (f k) c d) acc its = acc @ map (\<lambda>(k, c). (f k, c)) its"
proof (induction its arbitrary: acc)
  case Nil
  show ?case by simp
next
  case (Cons p its)
  obtain k c where p: "p = (k, c)" by (cases p)
  from Cons.prems have new: "f k \<notin> fst ` set acc" by (auto simp: p)
  have "fst ` set (acc @ [(f k, c)]) \<inter> f ` fst ` set its = {}"
    using Cons.prems by (auto simp: p dest: injD)
  from Cons.IH [OF _ Cons.prems(2) this] Cons.prems(1)
  show ?case by (simp add: p dict_set_new [OF new])
qed

lemma run_methods_METHODS:
  "ieee_diagnose r = Inr a \<Longrightarrow> dornenburg_diagnose r = Inr d \<Longrightarrow>
     run_methods METHODS r =
       Inr [a, iec_diagnose r, rogers_diagnose r, d, triangle_diagnose r, pentagon_diagnose r]"
  by (simp add: METHODS_def)

lemma Counter_entry:
  "(g, c) \<in> set (Counter vs) \<longleftrightarrow> g \<in> set vs \<and> c = count_list vs g"
proof -
  have "(g, c) \<in> set (Counter vs) \<longleftrightarrow> map_of (Counter vs) g = Some c"
    using distinct_Counter [of vs] by simp
  then show ?thesis by (auto simp: map_of_Counter)
qed

lemma compute_consensus_props:
  assumes "rs \<noteq> []"
  shows "\<exists>f i. compute_consensus rs =
            Inr (f, map (\<lambda>(ft, c). (FaultType_name ft, c)) (Counter (map fault_type rs)),
                 py_round (real (count_list (map fault_type rs) f)
                             / real (length (map fault_type rs)) * 100) 1) \<and>
          i < length (map fault_type rs) \<and> map fault_type rs ! i = f \<and>
          (\<forall>g. count_list (map fault_type rs) g \<le> count_list (map fault_type rs) f) \<and>
          (\<forall>j<i. count_list (map fault_type rs) (map fault_type rs ! j)
                    < count_list (map fault_type rs) f)"
proof -
  define votes where "votes = map fault_type rs"
  have ne: "votes \<noteq> []" using assms by (simp add: votes_def)
  then have "Counter votes \<noteq> []" using keys_Counter_set [of votes] by auto
  then obtain x xs where cx: "Counter votes = x # xs" by (cases "Counter votes") auto
  obtain f c where fc: "max_by_count x xs = (f, c)" by (cases "max_by_count x xs")
  from max_by_count_split [of x xs] obtain pre post where
    sp: "Counter votes = pre @ (f, c) # post"
    and lt: "\<forall>p \<in> set pre. snd p < c"
    and le: "\<forall>p \<in> set post. snd p \<le> c"
    unfolding cx fc by auto
  have "(f, c) \<in> set (Counter votes)" by (simp add: sp)
  then have fin: "f \<in> set votes" and c: "c = count_list votes f"
    by (simp_all add: Counter_entry)
  have maxc: "count_list votes g \<le> count_list votes f" for g
  proof (cases "g \<in> set votes")
    case True
    then have "(g, count_list votes g) \<in> set (Counter votes)" by (simp add: Counter_entry)
    then show ?thesis using lt le unfolding sp c by auto
  next
    case False
    then show ?thesis by (simp add: count_list_0_iff)
  qed
  have "map fst (Counter votes) = map fst pre @ f # map fst post" by (simp add: sp)
  from keys_Counter_order [OF this] obtain i where
    i: "i < length votes" "votes ! i = f" "set (take i votes) = set (map fst pre)" by blast
  have first: "count_list votes (votes ! j) < count_list votes f" if "j < i" for j
  proof -
    from that i(1) have "j < length (take i votes)" by simp
    then have "take i votes ! j \<in> set (take i votes)" by (rule nth_mem)
    with that have "votes ! j \<in> set (take i votes)" by simp
    with i(3) obtain p where p: "p \<in> set pre" "fst p = votes ! j" by auto
    then have "p \<in> set (Counter votes)" by (simp add: sp)
    then have "snd p = count_list votes (fst p)"
      using Counter_entry [of "fst p" "snd p" votes] by simp
    with lt p show ?thesis by (auto simp: c)
  qed
  have mc: "most_common1 (Counter votes) = [(f, c)]"
    by (simp add: most_common1_def cx fc)
  have vd: "foldl (\<lambda>d (ft, c). dict_set (FaultType_name ft) c d) [] (Counter votes)
            = map (\<lambda>(ft, c). (FaultType_name ft, c)) (Counter votes)"
    using foldl_dict_set_map [OF distinct_Counter inj_FaultType_name, of "[]" votes] by simp
  have "compute_consensus rs =
          Inr (f, map (\<lambda>(ft, c). (FaultType_name ft, c)) (Counter votes),
               py_round (real (count_list votes f) / real (length votes) * 100) 1)"
    using ne unfolding compute_consensus_def Let_def votes_def [symmetric] mc vd
    by (simp add: c)
  with i(1,2) maxc first show ?thesis unfolding votes_def by blast
qed

lemma diagnose_all_core:
  obtains res a d i where
    "ieee_diagnose r = Inr a" and "dornenburg_diagnose r = Inr d"
    and "method_name a = ieee_METHOD_NAME" and "method_name d = dornenburg_METHOD_NAME"
    and "diagnose_all r = Inr res"
    and "results res =
           [a, iec_diagnose r, rogers_diagnose r, d, triangle_diagnose r, pentagon_diagnose r]"
    and "vote_counts res =
           map (\<lambda>(ft, c). (FaultType_name ft, c)) (Counter (map fault_type (results res)))"
    and "agreement_pct res =
           py_round (real (count_list (map fault_type (results res)) (consensus_fault res))
                       / 6 * 100) 1"
    and "i < 6" and "map fault_type (results res) ! i = consensus_fault res"
    and "\<forall>g. count_list (map fault_type (results res)) g
               \<le> count_list (map fault_type (results res)) (consensus_fault res)"
    and "\<forall>j<i. count_list (map fault_type (results res)) (map fault_type (results res) ! j)
               < count_list (map fault_type (results res)) (consensus_fault res)"
proof -
  obtain a where a: "ieee_diagnose r = Inr a" and an: "method_name a = ieee_METHOD_NAME"
    using ieee_diagnose_total by blast
  obtain d where d: "dornenburg_diagnose r = Inr d"
    and dn: "method_name d = dornenburg_METHOD_NAME"
    using dornenburg_diagnose_total by blast
  define rs where
    "rs = [a, iec_diagnose r, rogers_diagnose r, d, triangle_diagnose r, pentagon_diagnose r]"
  have run: "run_methods METHODS r = Inr rs"
    unfolding rs_def by (rule run_methods_METHODS [OF a d])
  have ne: "rs \<noteq> []" and len: "length (map fault_type rs) = 6" and len': "length rs = 6"
    by (simp_all add: rs_def)
  from compute_consensus_props [OF ne] obtain f i where
    cc: "compute_consensus rs =
            Inr (f, map (\<lambda>(ft, c). (FaultType_name ft, c)) (Counter (map fault_type rs)),
                 py_round (real (count_list (map fault_type rs) f)
                             / real (length (map fault_type rs)) * 100) 1)"
    and i: "i < length (map fault_type rs)" "map fault_type rs ! i = f"
    and mx: "\<forall>g. count_list (map fault_type rs) g \<le> count_list (map fault_type rs) f"
    and fst: "\<forall>j<i. count_list (map fault_type rs) (map fault_type rs ! j)
                    < count_list (map fault_type rs) f"
    by blast
  define res where
    "res = \<lparr> results = rs, consensus_fault = f,
              vote_counts = map (\<lambda>(ft, c). (FaultType_name ft, c)) (Counter (map fault_type rs)),
              agreement_pct = py_round (real (count_list (map fault_type rs) f) / 6 * 100) 1 \<rparr>"
  have da: "diagnose_all r = Inr res"
    by (simp add: diagnose_all_def run cc len' res_def)
  show thesis
  proof (rule that [of a d res i])
    show "ieee_diagnose r = Inr a" by (rule a)
    show "dornenburg_diagnose r = Inr d" by (rule d)
    show "method_name a = ieee_METHOD_NAME" by (rule an)
    show "method_name d = dornenburg_METHOD_NAME" by (rule dn)
    show "diagnose_all r = Inr res" by (rule da)
    show "results res =
           [a, iec_diagnose r, rogers_diagnose r, d, triangle_diagnose r, pentagon_diagnose r]"
      by (simp add: res_def rs_def)
    show "vote_counts res =
           map (\<lambda>(ft, c). (FaultType_name ft, c)) (Counter (map fault_type (results res)))"
      by (simp add: res_def)
    show "agreement_pct res =
           py_round (real (count_list (map fault_type (results res)) (consensus_fault res))
                       / 6 * 100) 1"
      by (simp add: res_def)
    show "i < 6" using i(1) len by simp
    show "map fault_type (results res) ! i = consensus_fault res"
      using i(2) by (simp add: res_def)
    show "\<forall>g. count_list (map fault_type (results res)) g
               \<le> count_list (map fault_type (results res)) (consensus_fault res)"
      using mx by (simp add: res_def)
    show "\<forall>j<i. count_list (map fault_type (results res)) (map fault_type (results res) ! j)
               < count_list (map fault_type (results res)) (consensus_fault res)"
      using fst by (simp add: res_def)
  qed
qed

lemma majority_count_range:
  assumes "i < length vs" and "vs ! i = f" and "length vs = 6"
  shows "count_list vs f \<in> {1, 2, 3, 4, 5, 6}"
proof -
  from assms(1,2) have "f \<in> set vs" by (metis nth_mem)
  then have "count_list vs f \<noteq> 0" by (simp add: count_list_0_iff)
  moreover have "count_list vs f \<le> 6" using count_le_length [of vs f] assms(3) by simp
  ultimately show ?thesis by auto
qed

lemma agreement_values:
  assumes "c \<in> {1, 2, 3, 4, 5, 6 :: nat}"
  shows "py_round (real c / 6 * 100) 1 \<in> {167 / 10, 333 / 10, 50, 667 / 10, 833 / 10, 100}"
  using assms py_round_sixths by auto

lemma distinct_named:
  "distinct (map fst its) \<Longrightarrow> distinct (map fst (map (\<lambda>(ft, c). (FaultType_name ft, c)) its))"
proof -
  assume d: "distinct (map fst its)"
  have "map fst (map (\<lambda>(ft, c). (FaultType_name ft, c)) its) = map FaultType_name (map fst its)"
    by (induction its) auto
  moreover have "distinct (map FaultType_name (map fst its))"
    using d inj_FaultType_name by (simp add: distinct_map inj_on_def inj_def)
  ultimately show ?thesis by (simp only:)
qed

lemma map_of_named:
  "map_of (map (\<lambda>(ft, c). (FaultType_name ft, c)) its) (FaultType_name f) = map_of its f"
  using inj_FaultType_name by (induction its) (auto dest: injD)

lemma sum_list_snd_named:
  "sum_list (map snd (map (\<lambda>(ft, c). (FaultType_name ft, c)) its)) = sum_list (map snd its)"
  by (induction its) auto

lemma agreement_table:
  assumes "c \<in> {1, 2, 3, 4, 5, 6 :: nat}"
  shows "py_round (real c / 6 * 100) 1 = [167 / 10, 333 / 10, 50, 667 / 10, 833 / 10, 100] ! (c - 1)"
    and "\<bar>py_round (real c / 6 * 100) 1 - real c / 6 * 100\<bar> \<le> 1 / 20"
    and "\<exists>k::int. py_round (real c / 6 * 100) 1 = real_of_int k / 10"
proof -
  from assms have c: "c = 1 \<or> c = 2 \<or> c = 3 \<or> c = 4 \<or> c = 5 \<or> c = 6" by simp
  then show "py_round (real c / 6 * 100) 1
               = [167 / 10, 333 / 10, 50, 667 / 10, 833 / 10, 100] ! (c - 1)"
    using py_round_sixths by (elim disjE) simp_all
  from c show "\<bar>py_round (real c / 6 * 100) 1 - real c / 6 * 100\<bar> \<le> 1 / 20"
    using py_round_sixths by (elim disjE) simp_all
  show "\<exists>k::int. py_round (real c / 6 * 100) 1 = real_of_int k / 10"
    unfolding py_round_def by (rule exI [of _ "round_half_even (real c / 6 * 100 * 10 ^ 1)"]) simp
qed

text \<open>
  C2. For every gas reading \<open>diagnose_all\<close> returns a result whose vote counts (a
  dictionary: no key twice, each fault that was voted for with the number of its votes)
  sum to exactly 6. The consensus fault has the highest count of all faults, and the
  agreement percentage is that count divided by 6, times 100, rounded to one decimal: a
  whole number of tenths within 0.05 of the quotient, which is 16.7, 33.3, 50.0, 66.7, 83.3
  or 100.0 for a count of 1 to 6. It lies between 0 and 100.
\<close>

theorem consensus_votes_and_agreement:
  "\<exists>res. diagnose_all r = Inr res \<and>
     length (results res) = 6 \<and>
     distinct (map fst (vote_counts res)) \<and>
     sum_list (map snd (vote_counts res)) = 6 \<and>
     (\<forall>g. map_of (vote_counts res) (FaultType_name g)
            = (if g \<in> set (map fault_type (results res))
               then Some (count_list (map fault_type (results res)) g) else None)) \<and>
     map_of (vote_counts res) (FaultType_name (consensus_fault res))
       = Some (count_list (map fault_type (results res)) (consensus_fault res)) \<and>
     (\<forall>g. count_list (map fault_type (results res)) g
            \<le> count_list (map fault_type (results res)) (consensus_fault res)) \<and>
     1 \<le> count_list (map fault_type (results res)) (consensus_fault res) \<and>
     agreement_pct res =
       py_round (real (count_list (map fault_type (results res)) (consensus_fault res))
                   / 6 * 100) 1 \<and>
     agreement_pct res =
       [167 / 10, 333 / 10, 50, 667 / 10, 833 / 10, 100]
         ! (count_list (map fault_type (results res)) (consensus_fault res) - 1) \<and>
     \<bar>agreement_pct res
        - real (count_list (map fault_type (results res)) (consensus_fault res)) / 6 * 100\<bar>
       \<le> 1 / 20 \<and>
     (\<exists>k::int. agreement_pct res = real_of_int k / 10) \<and>
     0 \<le> agreement_pct res \<and> agreement_pct res \<le> 100"
proof -
  obtain res a d i where
    da: "diagnose_all r = Inr res"
    and rs: "results res =
           [a, iec_diagnose r, rogers_diagnose r, d, triangle_diagnose r, pentagon_diagnose r]"
    and vc: "vote_counts res =
           map (\<lambda>(ft, c). (FaultType_name ft, c)) (Counter (map fault_type (results res)))"
    and ag: "agreement_pct res =
           py_round (real (count_list (map fault_type (results res)) (consensus_fault res))
                       / 6 * 100) 1"
    and i: "i < 6" "map fault_type (results res) ! i = consensus_fault res"
    and mx: "\<forall>g. count_list (map fault_type (results res)) g
               \<le> count_list (map fault_type (results res)) (consensus_fault res)"
    by (rule diagnose_all_core [of r])
  have len: "length (map fault_type (results res)) = 6" by (simp add: rs)
  have len': "length (results res) = 6" by (simp add: rs)
  have sum: "sum_list (map snd (vote_counts res)) = 6"
    unfolding vc sum_list_snd_named sum_Counter by (rule len)
  have cnt: "count_list (map fault_type (results res)) (consensus_fault res)
                   \<in> {1, 2, 3, 4, 5, 6}"
    using majority_count_range [OF _ i(2) len] i(1) len by simp
  then have one: "1 \<le> count_list (map fault_type (results res)) (consensus_fault res)"
    by auto
  from agreement_values [OF cnt] have rng: "0 \<le> agreement_pct res" "agreement_pct res \<le> 100"
    unfolding ag [symmetric] by auto
  note tab = agreement_table [OF cnt, folded ag]
  have dist: "distinct (map fst (vote_counts res))"
    unfolding vc by (rule distinct_named) (rule distinct_Counter)
  have entries: "\<forall>g. map_of (vote_counts res) (FaultType_name g)
            = (if g \<in> set (map fault_type (results res))
               then Some (count_list (map fault_type (results res)) g) else None)"
    unfolding vc map_of_named by (simp only: map_of_Counter simp_thms)
  have winner: "map_of (vote_counts res) (FaultType_name (consensus_fault res))
       = Some (count_list (map fault_type (results res)) (consensus_fault res))"
  proof -
    from i len have "consensus_fault res \<in> set (map fault_type (results res))"
      by (metis nth_mem)
    then show ?thesis using entries by simp
  qed
  show ?thesis
    using da len' dist sum entries winner mx one ag tab rng
    by (intro exI [of _ res] conjI)
qed

lemma tie_reading_votes:
  "map (map_sum id fault_type)
     (map (\<lambda>m. m \<lparr>h2 = 150, ch4 = 130, c2h6 = 70, c2h4 = 60, c2h2 = 0,
                    co = 400, co2 = 3000, o2 = 0, n2 = 0\<rparr>) METHODS)
   = [Inr S, Inr T1, Inr N, Inr N, Inr T2, Inr T2]"
  by (simp add: METHODS_def ieee_diagnose_def iec_diagnose_def rogers_diagnose_def
      dornenburg_diagnose_def triangle_diagnose_def pentagon_diagnose_def
      gas_condition_def GAS_LIMITS_def tdcg_condition_def TDCG_LIMITS_def
      total_combustible_gases_def CONDITION_LABELS_def suggest_fault_type_def
      ratio_ch4_h2_def ratio_c2h2_c2h4_def ratio_c2h4_c2h6_def ratio_c2h6_c2h2_def
      ratio_c2h2_ch4_def safe_ratio_def iec_code_r1_def iec_code_r2_def iec_code_r5_def
      iec_DIAGNOSIS_TABLE_def rogers_code_r1_def rogers_code_r2_def rogers_code_r5_def
      rogers_DIAGNOSIS_TABLE_def exceeds_l1_def L1_LIMITS_def dornenburg_classify_def
      duval_triangle_percentages_def duval_pentagon_percentages_def fl_small
      triangle_classify_zone_def pentagon_classify_zone_def Let_def)

lemma tie_reading_result:
  assumes "diagnose_all \<lparr>h2 = 150, ch4 = 130, c2h6 = 70, c2h4 = 60, c2h2 = 0,
                          co = 400, co2 = 3000, o2 = 0, n2 = 0\<rparr> = Inr res"
  shows "map fault_type (results res) = [S, T1, N, N, T2, T2]"
    and "vote_counts res = [(''S'', 1), (''T1'', 1), (''N'', 2), (''T2'', 2)]"
proof -
  let ?r = "\<lparr>h2 = 150, ch4 = 130, c2h6 = 70, c2h4 = 60, c2h2 = 0,
             co = 400, co2 = 3000, o2 = 0, n2 = 0\<rparr>"
  obtain res' a d i where
    a: "ieee_diagnose ?r = Inr a" and d: "dornenburg_diagnose ?r = Inr d"
    and da: "diagnose_all ?r = Inr res'"
    and rs: "results res' =
           [a, iec_diagnose ?r, rogers_diagnose ?r, d, triangle_diagnose ?r, pentagon_diagnose ?r]"
    and vc: "vote_counts res' =
           map (\<lambda>(ft, c). (FaultType_name ft, c)) (Counter (map fault_type (results res')))"
    by (rule diagnose_all_core [of ?r])
  from da assms have eq: "res' = res" by simp
  have "map (map_sum id fault_type) (map (\<lambda>m. m ?r) METHODS)
          = map Inr (map fault_type (results res'))"
    by (simp add: METHODS_def a d rs)
  with tie_reading_votes
  have "map (Inr :: FaultType \<Rightarrow> error + FaultType) (map fault_type (results res'))
          = map Inr [S, T1, N, N, T2, T2]" by simp
  then have votes: "map fault_type (results res') = [S, T1, N, N, T2, T2]"
    by (simp only: inj_map_eq_map [OF inj_Inr])
  then show "map fault_type (results res) = [S, T1, N, N, T2, T2]" by (simp only: eq)
  have "vote_counts res' = [(''S'', 1), (''T1'', 1), (''N'', 2), (''T2'', 2)]"
    unfolding vc votes by (simp add: Counter_def dict_get_def)
  then show "vote_counts res = [(''S'', 1), (''T1'', 1), (''N'', 2), (''T2'', 2)]"
    by (simp only: eq)
qed

theorem consensus_votes_and_agreement_witness:
  "\<exists>res. diagnose_all \<lparr>h2 = 150, ch4 = 130, c2h6 = 70, c2h4 = 60, c2h2 = 0,
                          co = 400, co2 = 3000, o2 = 0, n2 = 0\<rparr> = Inr res \<and>
     map fault_type (results res) = [S, T1, N, N, T2, T2] \<and>
     vote_counts res = [(''S'', 1), (''T1'', 1), (''N'', 2), (''T2'', 2)] \<and>
     count_list (map fault_type (results res)) (consensus_fault res) = 2 \<and>
     agreement_pct res = 333 / 10"
proof -
  let ?r = "\<lparr>h2 = 150, ch4 = 130, c2h6 = 70, c2h4 = 60, c2h2 = 0,
             co = 400, co2 = 3000, o2 = 0, n2 = 0\<rparr>"
  from consensus_votes_and_agreement [of ?r] obtain res where
    da: "diagnose_all ?r = Inr res"
    and mx: "\<forall>g. count_list (map fault_type (results res)) g
            \<le> count_list (map fault_type (results res)) (consensus_fault res)"
    and tab: "agreement_pct res =
       [167 / 10, 333 / 10, 50, 667 / 10, 833 / 10, 100]
         ! (count_list (map fault_type (results res)) (consensus_fault res) - 1)"
    by (elim exE conjE) (rule that)
  note votes = tie_reading_result(1) [OF da]
  note vc = tie_reading_result(2) [OF da]
  from mx have "count_list (map fault_type (results res)) N
            \<le> count_list (map fault_type (results res)) (consensus_fault res)" ..
  then have "2 \<le> count_list [S, T1, N, N, T2, T2] (consensus_fault res)"
    unfolding votes by simp
  moreover have "count_list [S, T1, N, N, T2, T2] (consensus_fault res) \<le> 2"
    by (cases "consensus_fault res") simp_all
  ultimately have two: "count_list (map fault_type (results res)) (consensus_fault res) = 2"
    unfolding votes by simp
  with tab have "agreement_pct res = 333 / 10" by simp
  with da votes vc two show ?thesis by (intro exI [of _ res] conjI)
qed

text \<open>
  C3. For every gas reading the results are those of the six classifiers in the order IEEE,
  IEC, Rogers, Dornenburg, Duval Triangle, Duval Pentagon, and the consensus fault is the
  vote at some position \<open>i\<close> such that no fault has more votes and every vote before
  position \<open>i\<close> has strictly fewer: among the faults with the highest count, the first
  produced wins.
\<close>

theorem consensus_first_seen_wins:
  "\<exists>res. diagnose_all r = Inr res \<and>
     map Inr (results res) = map (\<lambda>m. m r) METHODS \<and>
     map method_name (results res) =
       [ieee_METHOD_NAME, iec_METHOD_NAME, rogers_METHOD_NAME, dornenburg_METHOD_NAME,
        triangle_METHOD_NAME, pentagon_METHOD_NAME] \<and>
     (\<exists>i < length (results res).
        consensus_fault res = fault_type (results res ! i) \<and>
        (\<forall>g. count_list (map fault_type (results res)) g
               \<le> count_list (map fault_type (results res)) (consensus_fault res)) \<and>
        (\<forall>j<i. count_list (map fault_type (results res)) (fault_type (results res ! j))
               < count_list (map fault_type (results res)) (consensus_fault res)))"
proof -
  obtain res a d i where
    a: "ieee_diagnose r = Inr a" and d: "dornenburg_diagnose r = Inr d"
    and an: "method_name a = ieee_METHOD_NAME" and dn: "method_name d = dornenburg_METHOD_NAME"
    and da: "diagnose_all r = Inr res"
    and rs: "results res =
           [a, iec_diagnose r, rogers_diagnose r, d, triangle_diagnose r, pentagon_diagnose r]"
    and i: "i < 6" "map fault_type (results res) ! i = consensus_fault res"
    and mx: "\<forall>g. count_list (map fault_type (results res)) g
               \<le> count_list (map fault_type (results res)) (consensus_fault res)"
    and fs: "\<forall>j<i. count_list (map fault_type (results res)) (map fault_type (results res) ! j)
               < count_list (map fault_type (results res)) (consensus_fault res)"
    by (rule diagnose_all_core [of r])
  have len: "length (results res) = 6" by (simp add: rs)
  have order: "map Inr (results res) = map (\<lambda>m. m r) METHODS"
    by (simp add: rs METHODS_def a d)
  have names: "map method_name (results res) =
       [ieee_METHOD_NAME, iec_METHOD_NAME, rogers_METHOD_NAME, dornenburg_METHOD_NAME,
        triangle_METHOD_NAME, pentagon_METHOD_NAME]"
    by (simp add: rs an dn method_names)
  have "consensus_fault res = fault_type (results res ! i)"
    using i len by simp
  moreover have "\<forall>j<i. count_list (map fault_type (results res)) (fault_type (results res ! j))
               < count_list (map fault_type (results res)) (consensus_fault res)"
    using fs i(1) len by simp
  ultimately show ?thesis using da order names mx i(1) len by auto
qed

theorem consensus_first_seen_wins_witness:
  "\<exists>res. diagnose_all \<lparr>h2 = 150, ch4 = 130, c2h6 = 70, c2h4 = 60, c2h2 = 0,
                          co = 400, co2 = 3000, o2 = 0, n2 = 0\<rparr> = Inr res \<and>
     map fault_type (results res) = [S, T1, N, N, T2, T2] \<and>
     consensus_fault res = N"
proof -
  let ?r = "\<lparr>h2 = 150, ch4 = 130, c2h6 = 70, c2h4 = 60, c2h2 = 0,
             co = 400, co2 = 3000, o2 = 0, n2 = 0\<rparr>"
  from consensus_first_seen_wins [of ?r] obtain res i where
    da: "diagnose_all ?r = Inr res"
    and order: "map Inr (results res) = map (\<lambda>m. m ?r) METHODS"
    and i: "i < length (results res)"
    and cf: "consensus_fault res = fault_type (results res ! i)"
    and mx: "\<forall>g. count_list (map fault_type (results res)) g
               \<le> count_list (map fault_type (results res)) (consensus_fault res)"
    and fs: "\<forall>j<i. count_list (map fault_type (results res)) (fault_type (results res ! j))
               < count_list (map fault_type (results res)) (consensus_fault res)"
    by blast
  have "map (map_sum id fault_type) (map (Inr :: MethodResult \<Rightarrow> error + MethodResult) (results res))
          = [Inr S, Inr T1, Inr N, Inr N, Inr T2, Inr T2]"
    unfolding order by (rule tie_reading_votes)
  then have "map (Inr :: FaultType \<Rightarrow> error + FaultType) (map fault_type (results res))
          = map Inr [S, T1, N, N, T2, T2]" by (simp add: comp_def)
  then have votes: "map fault_type (results res) = [S, T1, N, N, T2, T2]"
    by (simp only: inj_map_eq_map [OF inj_Inr])
  have "length (map fault_type (results res)) = 6" unfolding votes by simp
  then have len: "length (results res) = 6" by simp
  have nth: "fault_type (results res ! j) = [S, T1, N, N, T2, T2] ! j" if "j < 6" for j
    using that len votes by (metis nth_map)
  from i len have "i = 0 \<or> i = 1 \<or> i = 2 \<or> i = 3 \<or> i = 4 \<or> i = 5" by arith
  then have "consensus_fault res = N"
  proof (elim disjE)
    assume "i = 0"
    with cf nth [of 0] have "consensus_fault res = S" by simp
    with mx [rule_format, of N] show ?thesis by (simp add: votes)
  next
    assume "i = 1"
    with cf nth [of 1] have "consensus_fault res = T1" by simp
    with mx [rule_format, of N] show ?thesis by (simp add: votes)
  next
    assume "i = 2"
    with cf nth [of 2] show ?thesis by simp
  next
    assume "i = 3"
    with cf nth [of 3] show ?thesis by simp
  next
    assume "i = 4"
    with cf nth [of 4] have "consensus_fault res = T2" by simp
    with fs [rule_format, of 2] nth [of 2] \<open>i = 4\<close> show ?thesis by (simp add: votes)
  next
    assume "i = 5"
    with cf nth [of 5] have "consensus_fault res = T2" by simp
    with fs [rule_format, of 2] nth [of 2] \<open>i = 5\<close> show ?thesis by (simp add: votes)
  qed
  with da votes show ?thesis by (intro exI [of _ res]) simp
qed

text \<open>
  C10. For every gas reading the agreement percentage is one of 16.7, 33.3, 50.0, 66.7,
  83.3 and 100.0; it is never 0, the majority fault having at least one of the six votes.
\<close>

theorem agreement_is_a_sixth:
  "\<exists>res. diagnose_all r = Inr res \<and>
     agreement_pct res \<in> {167 / 10, 333 / 10, 50, 667 / 10, 833 / 10, 100} \<and>
     agreement_pct res \<noteq> 0 \<and>
     1 \<le> count_list (map fault_type (results res)) (consensus_fault res)"
proof -
  obtain res a d i where
    da: "diagnose_all r = Inr res"
    and rs: "results res =
           [a, iec_diagnose r, rogers_diagnose r, d, triangle_diagnose r, pentagon_diagnose r]"
    and ag: "agreement_pct res =
           py_round (real (count_list (map fault_type (results res)) (consensus_fault res))
                       / 6 * 100) 1"
    and i: "i < 6" "map fault_type (results res) ! i = consensus_fault res"
    by (rule diagnose_all_core [of r])
  have len: "length (map fault_type (results res)) = 6" by (simp add: rs)
  have cnt: "count_list (map fault_type (results res)) (consensus_fault res)
                   \<in> {1, 2, 3, 4, 5, 6}"
    using majority_count_range [OF _ i(2) len] i(1) len by simp
  from agreement_values [OF this]
  have "agreement_pct res \<in> {167 / 10, 333 / 10, 50, 667 / 10, 833 / 10, 100}"
    unfolding ag [symmetric] .
  moreover from this have "agreement_pct res \<noteq> 0" by auto
  moreover from cnt have "1 \<le> count_list (map fault_type (results res)) (consensus_fault res)"
    by auto
  ultimately show ?thesis using da by blast
qed

section \<open>Percentages and zones\<close>






text \<open>
  The Duval Triangle does what is expected of it: fault N flagged not applicable when its
  three percentages are all zero, one of the seven zone faults flagged applicable otherwise.
\<close>

lemma triangle_classify_zone_range:
  "fst (triangle_classify_zone p1 p2 p3) \<in> {PD, D1, D2, T1, T2, T3, DT}"
  by (simp add: triangle_classify_zone_def)

lemma triangle_diagnose_zones:
  "(duval_triangle_percentages r = (0, 0, 0) \<longrightarrow>
      fault_type (triangle_diagnose r) = N \<and>
      map_of (details (triangle_diagnose r)) ''applicable'' = Some (DBool False)) \<and>
   (duval_triangle_percentages r \<noteq> (0, 0, 0) \<longrightarrow>
      fault_type (triangle_diagnose r) \<in> {PD, D1, D2, T1, T2, T3, DT} \<and>
      map_of (details (triangle_diagnose r)) ''applicable'' = Some (DBool True))"
proof -
  obtain p1 p2 p3 where p: "duval_triangle_percentages r = (p1, p2, p3)"
    by (cases "duval_triangle_percentages r") auto
  obtain ft descr where z: "triangle_classify_zone p1 p2 p3 = (ft, descr)"
    by (cases "triangle_classify_zone p1 p2 p3")
  with triangle_classify_zone_range [of p1 p2 p3]
  have "ft \<in> {PD, D1, D2, T1, T2, T3, DT}" by simp
  then show ?thesis
    by (auto simp: triangle_diagnose_def p z)
qed

text \<open>
  The Duval Pentagon tests the first three of its five percentages only.
\<close>

lemma pentagon_diagnose_gate:
  "(case duval_pentagon_percentages r of
      (p1, p2, p3, p4, p5) \<Rightarrow>
        map_of (details (pentagon_diagnose r)) ''applicable''
          = Some (DBool (\<not> (p1 = 0 \<and> p2 = 0 \<and> p3 = 0))))"
  by (simp add: pentagon_diagnose_def split: prod.splits)

text \<open>
  C4. The claim is that the pentagon answers N, not applicable, exactly when all five
  percentages are zero. On the valid reading with 100 ppm of C2H4, 50 ppm of C2H2 and
  nothing else, the percentages are (0, 0, 0, 66.7, 33.3), yet the pentagon answers N and
  not applicable, where its own zone rules give D2; the triangle, on the same reading,
  is applicable.
\<close>

theorem pentagon_not_applicable_with_ethylene:
  "GasReading_init \<lparr>h2 = 0, ch4 = 0, c2h6 = 0, c2h4 = 100, c2h2 = 50,
                     co = 0, co2 = 0, o2 = 0, n2 = 0\<rparr>
     = Inr \<lparr>h2 = 0, ch4 = 0, c2h6 = 0, c2h4 = 100, c2h2 = 50,
            co = 0, co2 = 0, o2 = 0, n2 = 0\<rparr> \<and>
   duval_pentagon_percentages \<lparr>h2 = 0, ch4 = 0, c2h6 = 0, c2h4 = 100, c2h2 = 50,
                                co = 0, co2 = 0, o2 = 0, n2 = 0\<rparr>
     = (0, 0, 0, 200 / 3, 100 / 3) \<and>
   fault_type (pentagon_diagnose \<lparr>h2 = 0, ch4 = 0, c2h6 = 0, c2h4 = 100, c2h2 = 50,
                                  co = 0, co2 = 0, o2 = 0, n2 = 0\<rparr>) = N \<and>
   map_of (details (pentagon_diagnose \<lparr>h2 = 0, ch4 = 0, c2h6 = 0, c2h4 = 100, c2h2 = 50,
                                       co = 0, co2 = 0, o2 = 0, n2 = 0\<rparr>)) ''applicable''
     = Some (DBool False) \<and>
   fst (pentagon_classify_zone 0 0 0 (200 / 3) (100 / 3)) = D2 \<and>
   map_of (details (triangle_diagnose \<lparr>h2 = 0, ch4 = 0, c2h6 = 0, c2h4 = 100, c2h2 = 50,
                                       co = 0, co2 = 0, o2 = 0, n2 = 0\<rparr>)) ''applicable''
     = Some (DBool True)"
  by (simp add: GasReading_init_def gas_fields_def duval_pentagon_percentages_def
      pentagon_diagnose_def pentagon_classify_zone_def triangle_diagnose_def
      duval_triangle_percentages_def triangle_classify_zone_def fl_small Let_def)

section \<open>Running one classifier by name\<close>

lemma lower_names:
  "lower ieee_METHOD_NAME = ''ieee c57.104-2019''"
  "lower iec_METHOD_NAME = ''iec 60599:2022''"
  "lower rogers_METHOD_NAME = ''rogers''"
  "lower dornenburg_METHOD_NAME = ''dornenburg''"
  "lower triangle_METHOD_NAME = ''triangulo de duval 1''"
  "lower pentagon_METHOD_NAME = ''pentagono de duval 1''"
  by (simp_all add: lower_def lower_char_def ieee_METHOD_NAME_def iec_METHOD_NAME_def
      rogers_METHOD_NAME_def dornenburg_METHOD_NAME_def triangle_METHOD_NAME_def
      pentagon_METHOD_NAME_def char_of_def bit_Suc_0_iff)

lemma of_char_lower_char:
  "(of_char (lower_char c) :: nat) =
     (let n = of_char c
      in if (65 \<le> n \<and> n \<le> 90) \<or> (192 \<le> n \<and> n \<le> 214) \<or> (216 \<le> n \<and> n \<le> 222)
         then n + 32 else n)"
  by (auto simp: lower_char_def Let_def)

lemma lower_char_eq_iff:
  "lower_char x = lower_char y \<longleftrightarrow>
     x = y \<or>
     (((65 \<le> (of_char x :: nat) \<and> (of_char x :: nat) \<le> 90) \<or>
       (192 \<le> (of_char x :: nat) \<and> (of_char x :: nat) \<le> 214) \<or>
       (216 \<le> (of_char x :: nat) \<and> (of_char x :: nat) \<le> 222)) \<and>
      (of_char y :: nat) = of_char x + 32) \<or>
     (((65 \<le> (of_char y :: nat) \<and> (of_char y :: nat) \<le> 90) \<or>
       (192 \<le> (of_char y :: nat) \<and> (of_char y :: nat) \<le> 214) \<or>
       (216 \<le> (of_char y :: nat) \<and> (of_char y :: nat) \<le> 222)) \<and>
      (of_char x :: nat) = of_char y + 32)"
proof -
  have "lower_char x = lower_char y
          \<longleftrightarrow> (of_char (lower_char x) :: nat) = of_char (lower_char y)"
    by simp
  also have "\<dots> \<longleftrightarrow> (of_char x :: nat) = of_char y \<or>
     (((65 \<le> (of_char x :: nat) \<and> (of_char x :: nat) \<le> 90) \<or>
       (192 \<le> (of_char x :: nat) \<and> (of_char x :: nat) \<le> 214) \<or>
       (216 \<le> (of_char x :: nat) \<and> (of_char x :: nat) \<le> 222)) \<and>
      (of_char y :: nat) = of_char x + 32) \<or>
     (((65 \<le> (of_char y :: nat) \<and> (of_char y :: nat) \<le> 90) \<or>
       (192 \<le> (of_char y :: nat) \<and> (of_char y :: nat) \<le> 214) \<or>
       (216 \<le> (of_char y :: nat) \<and> (of_char y :: nat) \<le> 222)) \<and>
      (of_char x :: nat) = of_char y + 32)"
    unfolding of_char_lower_char Let_def by arith
  finally show ?thesis by simp
qed

lemma lower_eq_iff:
  "lower s = lower t \<longleftrightarrow> list_all2 (\<lambda>x y. lower_char x = lower_char y) s t"
  unfolding lower_def
proof (induction s arbitrary: t)
  case Nil
  show ?case by auto
next
  case (Cons x s)
  then show ?case by (cases t) auto
qed

lemma diagnose_single_lower:
  "\<exists>a d. ieee_diagnose r = Inr a \<and> dornenburg_diagnose r = Inr d \<and>
     method_name a = ieee_METHOD_NAME \<and> method_name d = dornenburg_METHOD_NAME \<and>
     diagnose_single r nm =
       Inr (if lower nm = lower ieee_METHOD_NAME then Some a
            else if lower nm = lower iec_METHOD_NAME then Some (iec_diagnose r)
            else if lower nm = lower rogers_METHOD_NAME then Some (rogers_diagnose r)
            else if lower nm = lower dornenburg_METHOD_NAME then Some d
            else if lower nm = lower triangle_METHOD_NAME then Some (triangle_diagnose r)
            else if lower nm = lower pentagon_METHOD_NAME then Some (pentagon_diagnose r)
            else None)"
proof -
  obtain a where a: "ieee_diagnose r = Inr a" "method_name a = ieee_METHOD_NAME"
    using ieee_diagnose_total by blast
  obtain d where d: "dornenburg_diagnose r = Inr d" "method_name d = dornenburg_METHOD_NAME"
    using dornenburg_diagnose_total by blast
  have "diagnose_single r nm =
       Inr (if lower nm = lower ieee_METHOD_NAME then Some a
            else if lower nm = lower iec_METHOD_NAME then Some (iec_diagnose r)
            else if lower nm = lower rogers_METHOD_NAME then Some (rogers_diagnose r)
            else if lower nm = lower dornenburg_METHOD_NAME then Some d
            else if lower nm = lower triangle_METHOD_NAME then Some (triangle_diagnose r)
            else if lower nm = lower pentagon_METHOD_NAME then Some (pentagon_diagnose r)
            else None)"
    by (auto simp: diagnose_single_def METHODS_def a d method_names lower_names)
  with a d show ?thesis by blast
qed

text \<open>
  C9. For every gas reading and every name, \<open>diagnose_single\<close> raises nothing. It returns
  the result of the classifier whose method name is the given name up to the case of its
  letters: the two have the same length and, position by position, the same character or a
  capital and the character 32 code points above it. The six names are spelled out; the
  result returned bears the name matched; and a name that matches none gives \<open>None\<close>.
\<close>

theorem diagnose_single_by_name:
  "\<exists>a d. ieee_diagnose r = Inr a \<and> dornenburg_diagnose r = Inr d \<and>
     map method_name
       [a, iec_diagnose r, rogers_diagnose r, d, triangle_diagnose r, pentagon_diagnose r]
       = [''IEEE C57.104-2019'', ''IEC 60599:2022'', ''Rogers'', ''Dornenburg'',
          ''Triangulo de Duval 1'', ''Pentagono de Duval 1''] \<and>
     (let capital = (\<lambda>c. (65 \<le> (of_char c :: nat) \<and> (of_char c :: nat) \<le> 90) \<or>
                         (192 \<le> (of_char c :: nat) \<and> (of_char c :: nat) \<le> 214) \<or>
                         (216 \<le> (of_char c :: nat) \<and> (of_char c :: nat) \<le> 222));
          same_letter = (\<lambda>x y. x = y \<or>
                           (capital x \<and> (of_char y :: nat) = of_char x + 32) \<or>
                           (capital y \<and> (of_char x :: nat) = of_char y + 32));
          matches = (\<lambda>s. list_all2 same_letter nm s)
      in diagnose_single r nm =
           Inr (if matches ''IEEE C57.104-2019'' then Some a
                else if matches ''IEC 60599:2022'' then Some (iec_diagnose r)
                else if matches ''Rogers'' then Some (rogers_diagnose r)
                else if matches ''Dornenburg'' then Some d
                else if matches ''Triangulo de Duval 1'' then Some (triangle_diagnose r)
                else if matches ''Pentagono de Duval 1'' then Some (pentagon_diagnose r)
                else None))"
proof -
  have eq: "list_all2 (\<lambda>x y. x = y \<or>
     (((65 \<le> (of_char x :: nat) \<and> (of_char x :: nat) \<le> 90) \<or>
       (192 \<le> (of_char x :: nat) \<and> (of_char x :: nat) \<le> 214) \<or>
       (216 \<le> (of_char x :: nat) \<and> (of_char x :: nat) \<le> 222)) \<and>
      (of_char y :: nat) = of_char x + 32) \<or>
     (((65 \<le> (of_char y :: nat) \<and> (of_char y :: nat) \<le> 90) \<or>
       (192 \<le> (of_char y :: nat) \<and> (of_char y :: nat) \<le> 214) \<or>
       (216 \<le> (of_char y :: nat) \<and> (of_char y :: nat) \<le> 222)) \<and>
      (of_char x :: nat) = of_char y + 32)) nm s = (lower nm = lower s)" for s
    by (simp only: lower_eq_iff lower_char_eq_iff)
  from diagnose_single_lower [of r nm] obtain a d where
    a: "ieee_diagnose r = Inr a" and d: "dornenburg_diagnose r = Inr d"
    and an: "method_name a = ieee_METHOD_NAME" and dn: "method_name d = dornenburg_METHOD_NAME"
    and ds: "diagnose_single r nm =
       Inr (if lower nm = lower ieee_METHOD_NAME then Some a
            else if lower nm = lower iec_METHOD_NAME then Some (iec_diagnose r)
            else if lower nm = lower rogers_METHOD_NAME then Some (rogers_diagnose r)
            else if lower nm = lower dornenburg_METHOD_NAME then Some d
            else if lower nm = lower triangle_METHOD_NAME then Some (triangle_diagnose r)
            else if lower nm = lower pentagon_METHOD_NAME then Some (pentagon_diagnose r)
            else None)"
    by (elim exE conjE) (rule that)
  have names: "map method_name
       [a, iec_diagnose r, rogers_diagnose r, d, triangle_diagnose r, pentagon_diagnose r]
       = [''IEEE C57.104-2019'', ''IEC 60599:2022'', ''Rogers'', ''Dornenburg'',
          ''Triangulo de Duval 1'', ''Pentagono de Duval 1'']"
    by (simp add: an dn method_names ieee_METHOD_NAME_def iec_METHOD_NAME_def
        rogers_METHOD_NAME_def dornenburg_METHOD_NAME_def triangle_METHOD_NAME_def
        pentagon_METHOD_NAME_def)
  have ds': "diagnose_single r nm =
       Inr (if lower nm = lower ''IEEE C57.104-2019'' then Some a
            else if lower nm = lower ''IEC 60599:2022'' then Some (iec_diagnose r)
            else if lower nm = lower ''Rogers'' then Some (rogers_diagnose r)
            else if lower nm = lower ''Dornenburg'' then Some d
            else if lower nm = lower ''Triangulo de Duval 1'' then Some (triangle_diagnose r)
            else if lower nm = lower ''Pentagono de Duval 1'' then Some (pentagon_diagnose r)
            else None)"
    using ds unfolding ieee_METHOD_NAME_def iec_METHOD_NAME_def
        rogers_METHOD_NAME_def dornenburg_METHOD_NAME_def triangle_METHOD_NAME_def
        pentagon_METHOD_NAME_def .
  show ?thesis
    unfolding Let_def eq
    using a d names ds' by (intro exI [of _ a] exI [of _ d] conjI)
qed


theorem diagnose_single_by_name_witness:
  "diagnose_single \<lparr>h2 = 15, ch4 = 5, c2h6 = 3, c2h4 = 2, c2h2 = 0,
                     co = 200, co2 = 1500, o2 = 20000, n2 = 55000\<rparr> ''ROGERS''
     = Inr (Some (rogers_diagnose \<lparr>h2 = 15, ch4 = 5, c2h6 = 3, c2h4 = 2, c2h2 = 0,
                                    co = 200, co2 = 1500, o2 = 20000, n2 = 55000\<rparr>)) \<and>
   diagnose_single \<lparr>h2 = 15, ch4 = 5, c2h6 = 3, c2h4 = 2, c2h2 = 0,
                     co = 200, co2 = 1500, o2 = 20000, n2 = 55000\<rparr> ''rogers''
     = Inr (Some (rogers_diagnose \<lparr>h2 = 15, ch4 = 5, c2h6 = 3, c2h4 = 2, c2h2 = 0,
                                    co = 200, co2 = 1500, o2 = 20000, n2 = 55000\<rparr>)) \<and>
   diagnose_single \<lparr>h2 = 15, ch4 = 5, c2h6 = 3, c2h4 = 2, c2h2 = 0,
                     co = 200, co2 = 1500, o2 = 20000, n2 = 55000\<rparr> ''pentagono DE Duval 1''
     = Inr (Some (pentagon_diagnose \<lparr>h2 = 15, ch4 = 5, c2h6 = 3, c2h4 = 2, c2h2 = 0,
                                      co = 200, co2 = 1500, o2 = 20000, n2 = 55000\<rparr>)) \<and>
   diagnose_single \<lparr>h2 = 15, ch4 = 5, c2h6 = 3, c2h4 = 2, c2h2 = 0,
                     co = 200, co2 = 1500, o2 = 20000, n2 = 55000\<rparr> ''iec 60599:2022''
     = Inr (Some (iec_diagnose \<lparr>h2 = 15, ch4 = 5, c2h6 = 3, c2h4 = 2, c2h2 = 0,
                                 co = 200, co2 = 1500, o2 = 20000, n2 = 55000\<rparr>)) \<and>
   diagnose_single \<lparr>h2 = 15, ch4 = 5, c2h6 = 3, c2h4 = 2, c2h2 = 0,
                     co = 200, co2 = 1500, o2 = 20000, n2 = 55000\<rparr> ''MetodoInventado''
     = Inr None \<and>
   diagnose_single \<lparr>h2 = 15, ch4 = 5, c2h6 = 3, c2h4 = 2, c2h2 = 0,
                     co = 200, co2 = 1500, o2 = 20000, n2 = 55000\<rparr> ''Roger''
     = Inr None"
proof -
  let ?r = "\<lparr>h2 = 15, ch4 = 5, c2h6 = 3, c2h4 = 2, c2h2 = 0,
             co = 200, co2 = 1500, o2 = 20000, n2 = 55000\<rparr>"
  have 1: "diagnose_single ?r ''ROGERS'' = Inr (Some (rogers_diagnose ?r))"
    using diagnose_single_by_name [of ?r "''ROGERS''"] by (elim exE conjE) (simp add: Let_def)
  have 2: "diagnose_single ?r ''rogers'' = Inr (Some (rogers_diagnose ?r))"
    using diagnose_single_by_name [of ?r "''rogers''"] by (elim exE conjE) (simp add: Let_def)
  have 3: "diagnose_single ?r ''pentagono DE Duval 1'' = Inr (Some (pentagon_diagnose ?r))"
    using diagnose_single_by_name [of ?r "''pentagono DE Duval 1''"] by (elim exE conjE) (simp add: Let_def)
  have 4: "diagnose_single ?r ''iec 60599:2022'' = Inr (Some (iec_diagnose ?r))"
    using diagnose_single_by_name [of ?r "''iec 60599:2022''"] by (elim exE conjE) (simp add: Let_def)
  have 5: "diagnose_single ?r ''MetodoInventado'' = Inr None"
    using diagnose_single_by_name [of ?r "''MetodoInventado''"] by (elim exE conjE) (simp add: Let_def)
  have 6: "diagnose_single ?r ''Roger'' = Inr None"
    using diagnose_single_by_name [of ?r "''Roger''"] by (elim exE conjE) (simp add: Let_def)
  from 1 2 3 4 5 6 show ?thesis by (simp only: simp_thms)
qed

section \<open>Training\<close>

lemma np_unique_set: "set (np_unique y) = set y"
  by (simp add: np_unique_def)

lemma np_unique_length: "length (np_unique y) = card (set y)"
  by (simp add: np_unique_def length_remdups_card_conv)

lemma fold_max_ge: "(a::nat) \<le> fold max ys a \<and> (\<forall>x \<in> set ys. x \<le> fold max ys a)"
proof (induction ys arbitrary: a)
  case Nil
  show ?case by simp
next
  case (Cons y ys)
  from Cons.IH [of "max y a"] show ?case by (auto simp: max_def split: if_splits)
qed

lemma np_bincount_nth:
  assumes "c \<in> set y"
  shows "c < length (np_bincount y)" and "np_bincount y ! c = count_list y c"
proof -
  from assms have ne: "y \<noteq> []" by auto
  from assms fold_max_ge [of 0 y] have le: "c \<le> fold max y 0" by blast
  then show "c < length (np_bincount y)" using ne by (simp add: np_bincount_def)
  from le have "c < Suc (fold max y 0)" by simp
  then have "map (count_list y) [0 ..< Suc (fold max y 0)] ! c = count_list y c"
    by (simp only: nth_map_upt add_0 diff_zero)
  then show "np_bincount y ! c = count_list y c" using ne by (simp add: np_bincount_def)
qed

lemma np_take_in_range:
  "\<forall>i \<in> set idx. i < length a \<Longrightarrow> np_take a idx = Inr (map (\<lambda>i. a ! i) idx)"
  by (induction idx) auto

lemma class_counts:
  "np_take (np_bincount y) (np_unique y) = Inr (map (count_list y) (np_unique y))"
proof -
  have "np_take (np_bincount y) (np_unique y) = Inr (map (\<lambda>i. np_bincount y ! i) (np_unique y))"
    by (rule np_take_in_range) (simp add: np_unique_set np_bincount_nth)
  also have "map (\<lambda>i. np_bincount y ! i) (np_unique y) = map (count_list y) (np_unique y)"
    by (rule map_cong) (simp_all add: np_unique_set np_bincount_nth)
  finally show ?thesis .
qed

lemma py_min_Min: "xs \<noteq> [] \<Longrightarrow> py_min xs = Inr (Min (set xs))"
proof (cases xs)
  case Nil
  assume "xs \<noteq> []"
  with Nil show ?thesis by simp
next
  case (Cons a list)
  show ?thesis unfolding Cons py_min.simps Min.set_eq_fold ..
qed

lemma floor_at_2:
  "(let e = x in if e < 2 then Inr 2 else Inr e) = (Inr (max 2 x) :: error + int)"
  by (simp add: max_def)

lemma smallest_class_count:
  assumes "y \<noteq> []"
  shows "py_min (map (count_list y) (np_unique y)) = Inr (Min (count_list y ` set y))"
proof -
  from assms have "set (np_unique y) \<noteq> {}" by (simp add: np_unique_set)
  then have "map (count_list y) (np_unique y) \<noteq> []" by auto
  from py_min_Min [OF this] show ?thesis by (simp add: np_unique_set)
qed

lemma trainer_effective_folds_eq:
  assumes "y \<noteq> []"
  shows "trainer_effective_folds n_folds y (np_unique y)
           = Inr (max 2 (min n_folds (int (Min (count_list y ` set y)))))"
  unfolding trainer_effective_folds_def class_counts floor_at_2
  by (simp add: smallest_class_count [OF assms])

lemma evaluator_same_rule:
  "evaluator_effective_folds n_folds y = trainer_effective_folds n_folds y (np_unique y)"
  by (simp add: evaluator_effective_folds_def trainer_effective_folds_def)

lemma evaluator_effective_folds_eq:
  assumes "y \<noteq> []"
  shows "evaluator_effective_folds n_folds y
           = Inr (max 2 (min n_folds (int (Min (count_list y ` set y)))))"
proof -
  have "evaluator_effective_folds n_folds y =
          (case np_take (np_bincount y) (np_unique y) of
             Inl e \<Rightarrow> Inl e
           | Inr counts \<Rightarrow>
               (case py_min counts of
                  Inl e \<Rightarrow> Inl e
                | Inr min_class_count \<Rightarrow>
                    (let effective_folds = min n_folds (int min_class_count)
                     in if effective_folds < 2 then Inr 2 else Inr effective_folds)))"
    by (simp add: evaluator_effective_folds_def)
  then show ?thesis
    unfolding class_counts floor_at_2 by (simp add: smallest_class_count [OF assms])
qed

lemma train_loop_calls:
  "\<exists>new. snd (train_loop sk ps X y k trained calls) = calls @ new \<and>
     (\<forall>nm k'. CrossValidated nm k' \<in> set new \<longrightarrow> k' = k) \<and>
     (ps \<noteq> [] \<longrightarrow> new \<noteq> [] \<and> hd new = CrossValidated (fst (hd ps)) k)"
proof (induction ps arbitrary: trained calls)
  case Nil
  show ?case by simp
next
  case (Cons p ps)
  obtain nm pl where p: "p = (nm, pl)" by (cases p)
  show ?case
  proof (cases "cross_val_score sk pl X y k")
    case (Inl e)
    then show ?thesis by (simp add: p)
  next
    case (Inr scores)
    note cv = this
    show ?thesis
    proof (cases "fit sk pl X y")
      case (Inl e)
      with cv show ?thesis by (simp add: p)
    next
      case (Inr fitted)
      from Cons.IH [of "trained @
                    [\<lparr> name = nm, pipeline = fitted,
                       cv_accuracy = py_round (np_mean scores) 4,
                       cv_std = py_round (np_std scores) 4,
                       cv_scores = map (\<lambda>s. py_round s 4) scores \<rparr>]"
              "calls @ [CrossValidated nm k, Fitted nm]"]
      obtain new where
        new: "snd (train_loop sk ps X y k (trained @
                    [\<lparr> name = nm, pipeline = fitted,
                       cv_accuracy = py_round (np_mean scores) 4,
                       cv_std = py_round (np_std scores) 4,
                       cv_scores = map (\<lambda>s. py_round s 4) scores \<rparr>])
                 (calls @ [CrossValidated nm k, Fitted nm]))
              = (calls @ [CrossValidated nm k, Fitted nm]) @ new"
        and folds: "\<forall>nm k'. CrossValidated nm k' \<in> set new \<longrightarrow> k' = k"
        by blast
      have "snd (train_loop sk (p # ps) X y k trained calls)
              = calls @ ([CrossValidated nm k, Fitted nm] @ new)"
        using new by (simp add: p cv Inr)
      moreover have "\<forall>nm' k'. CrossValidated nm' k' \<in> set ([CrossValidated nm k, Fitted nm] @ new)
                       \<longrightarrow> k' = k"
        using folds by auto
      moreover have "hd ([CrossValidated nm k, Fitted nm] @ new) = CrossValidated (fst (hd (p # ps))) k"
        by (simp add: p)
      ultimately show ?thesis by (metis append_is_Nil_conv list.distinct(1))
    qed
  qed
qed

lemma train_loop_length:
  "train_loop sk ps X y k trained calls = (Inr out, calls') \<Longrightarrow>
     length out = length trained + length ps"
proof (induction ps arbitrary: trained calls)
  case Nil
  then show ?case by simp
next
  case (Cons p ps)
  obtain nm pl where p: "p = (nm, pl)" by (cases p)
  from Cons.prems obtain scores fitted where
    "cross_val_score sk pl X y k = Inr scores" "fit sk pl X y = Inr fitted"
    by (auto simp: p split: sum.splits)
  with Cons.prems Cons.IH show ?case
    by (auto simp: p)
qed

lemma sort_by_accuracy_desc_sorted:
  "sorted_wrt (\<lambda>a b. b \<le> a) (map cv_accuracy (sort_by_accuracy_desc ms))"
proof -
  have "sorted (map (\<lambda>m. - cv_accuracy m) (sort_by_accuracy_desc ms))"
    unfolding sort_by_accuracy_desc_def by (rule sorted_sort_key)
  then show ?thesis
    by (simp add: sorted_wrt_map sorted_map)
qed

lemma sort_by_accuracy_desc_length: "length (sort_by_accuracy_desc ms) = length ms"
  by (simp add: sort_by_accuracy_desc_def)

text \<open>
  C5, as amended. \<open>train_all\<close> fails with the sizing error whenever there are fewer
  samples than requested folds; it fails with the class-count error whenever there are at
  least as many samples as folds and fewer than 2 distinct labels. In both cases nothing
  has been cross-validated or fitted: the log of calls is empty and no result is returned.
\<close>

theorem train_all_preconditions:
  "(int (length X) < n_folds \<longrightarrow>
      train_all sk n_folds X y = (Inl (ValueError (TooFewSamples n_folds (length X))), [])) \<and>
   (\<not> int (length X) < n_folds \<and> card (set y) < 2 \<longrightarrow>
      train_all sk n_folds X y = (Inl (ValueError (TooFewClasses (card (set y)))), []))"
  by (simp add: train_all_def Let_def np_unique_length)

theorem train_all_preconditions_witness:
  "train_all \<lparr>cross_val_score = \<lambda>alg X y k. Inr [1, 1], fit = \<lambda>alg X y. Inr alg\<rparr> 5
     [[1, 2, 3, 4, 5, 6, 7, 8, 9]] [0]
     = (Inl (ValueError (TooFewSamples 5 1)), []) \<and>
   train_all \<lparr>cross_val_score = \<lambda>alg X y k. Inr [1, 1], fit = \<lambda>alg X y. Inr alg\<rparr> 3
     [[1, 1, 1, 1, 1, 1, 1, 1, 1], [2, 2, 2, 2, 2, 2, 2, 2, 2], [3, 3, 3, 3, 3, 3, 3, 3, 3],
      [4, 4, 4, 4, 4, 4, 4, 4, 4], [5, 5, 5, 5, 5, 5, 5, 5, 5]] [0, 0, 0, 0, 0]
     = (Inl (ValueError (TooFewClasses 1)), [])"
  using
    train_all_preconditions [of "[[1, 2, 3, 4, 5, 6, 7, 8, 9]]" 5
      "\<lparr>cross_val_score = \<lambda>alg X y k. Inr [1, 1], fit = \<lambda>alg X y. Inr alg\<rparr>" "[0]"]
    train_all_preconditions [of
      "[[1, 1, 1, 1, 1, 1, 1, 1, 1], [2, 2, 2, 2, 2, 2, 2, 2, 2], [3, 3, 3, 3, 3, 3, 3, 3, 3],
        [4, 4, 4, 4, 4, 4, 4, 4, 4], [5, 5, 5, 5, 5, 5, 5, 5, 5]]" 3
      "\<lparr>cross_val_score = \<lambda>alg X y k. Inr [1, 1], fit = \<lambda>alg X y. Inr alg\<rparr>"
      "[0, 0, 0, 0, 0]"]
  by simp

text \<open>
  C5 as stated fails: with three samples of a single class and five folds requested, fewer
  than 2 distinct labels are present and yet the error is the sizing error, the sample
  count being tested first.
\<close>

theorem train_all_one_class_few_samples:
  "card (set [0, 0, 0 :: nat]) < 2 \<and>
   train_all \<lparr>cross_val_score = \<lambda>alg X y k. Inr [1, 1], fit = \<lambda>alg X y. Inr alg\<rparr> 5
     [[1, 1, 1, 1, 1, 1, 1, 1, 1], [2, 2, 2, 2, 2, 2, 2, 2, 2], [3, 3, 3, 3, 3, 3, 3, 3, 3]]
     [0, 0, 0]
     = (Inl (ValueError (TooFewSamples 5 3)), []) \<and>
   (\<forall>k. fst (train_all \<lparr>cross_val_score = \<lambda>alg X y k. Inr [1, 1], fit = \<lambda>alg X y. Inr alg\<rparr> 5
     [[1, 1, 1, 1, 1, 1, 1, 1, 1], [2, 2, 2, 2, 2, 2, 2, 2, 2], [3, 3, 3, 3, 3, 3, 3, 3, 3]]
     [0, 0, 0])
     \<noteq> Inl (ValueError (TooFewClasses k)))"
  by (simp add: train_all_def Let_def)

text \<open>
  C6. For every input that passes both preconditions of \<open>train_all\<close>, the trainer's
  effective fold count is max(2, min(requested, smallest class count)); the evaluator
  computes the same; and every cross-validation that \<open>train_all\<close> runs, the first one
  included, is given this fold count.
\<close>

theorem effective_folds_rule:
  assumes "\<not> int (length X) < n_folds" and "\<not> card (set y) < 2"
  shows "trainer_effective_folds n_folds y (np_unique y)
           = Inr (max 2 (min n_folds (int (Min (count_list y ` set y))))) \<and>
         evaluator_effective_folds n_folds y = trainer_effective_folds n_folds y (np_unique y) \<and>
         (\<exists>rest. snd (train_all sk n_folds X y)
                   = CrossValidated ''Random Forest''
                       (max 2 (min n_folds (int (Min (count_list y ` set y))))) # rest \<and>
                 (\<forall>nm k. CrossValidated nm k \<in> set rest \<longrightarrow>
                    k = max 2 (min n_folds (int (Min (count_list y ` set y))))))"
proof -
  let ?k = "max 2 (min n_folds (int (Min (count_list y ` set y))))"
  from assms(2) have ne: "y \<noteq> []" by auto
  note tf = trainer_effective_folds_eq [OF ne, of n_folds]
  note ef = evaluator_effective_folds_eq [OF ne, of n_folds]
  have bp: "build_pipelines \<noteq> []" "fst (hd build_pipelines) = ''Random Forest''"
    by (simp_all add: build_pipelines_def)
  from train_loop_calls [of sk build_pipelines X y ?k "[]" "[]"]
  obtain new where
    new: "snd (train_loop sk build_pipelines X y ?k [] []) = new"
    and folds: "\<forall>nm k'. CrossValidated nm k' \<in> set new \<longrightarrow> k' = ?k"
    and hd: "new \<noteq> []" "hd new = CrossValidated ''Random Forest'' ?k"
    unfolding bp(2) [symmetric] using bp(1) by auto
  obtain r c where tl: "train_loop sk build_pipelines X y ?k [] [] = (r, c)"
    by (cases "train_loop sk build_pipelines X y ?k [] []")
  have "snd (train_all sk n_folds X y) = c"
    using assms
    by (simp add: train_all_def Let_def np_unique_length tf tl split: sum.splits list.splits)
  with new tl have "snd (train_all sk n_folds X y) = new" by simp
  moreover from hd obtain rest where rest: "new = CrossValidated ''Random Forest'' ?k # rest"
    by (cases new) auto
  moreover have "\<forall>nm k. CrossValidated nm k \<in> set rest \<longrightarrow> k = ?k"
  proof (intro allI impI)
    fix nm k assume "CrossValidated nm k \<in> set rest"
    then have "CrossValidated nm k \<in> set new" unfolding rest by (rule list.set_intros(2))
    with folds show "k = ?k" by blast
  qed
  ultimately have "snd (train_all sk n_folds X y) = CrossValidated ''Random Forest'' ?k # rest \<and>
                 (\<forall>nm k. CrossValidated nm k \<in> set rest \<longrightarrow> k = ?k)"
    by (simp only:)
  then have "\<exists>rest. snd (train_all sk n_folds X y) = CrossValidated ''Random Forest'' ?k # rest \<and>
                 (\<forall>nm k. CrossValidated nm k \<in> set rest \<longrightarrow> k = ?k)"
    by (rule exI)
  with tf ef show ?thesis by simp
qed

theorem effective_folds_rule_witness:
  "trainer_effective_folds 5 [0, 0, 0, 0, 1] (np_unique [0, 0, 0, 0, 1]) = Inr 2 \<and>
   evaluator_effective_folds 5 [0, 0, 0, 0, 1] = Inr 2 \<and>
   (\<exists>rest. snd (train_all
        \<lparr>cross_val_score = \<lambda>alg X y k. Inr [1, 1], fit = \<lambda>alg X y. Inr alg\<rparr> 5
        [[1, 1, 1, 1, 1, 1, 1, 1, 1], [2, 2, 2, 2, 2, 2, 2, 2, 2], [3, 3, 3, 3, 3, 3, 3, 3, 3],
         [4, 4, 4, 4, 4, 4, 4, 4, 4], [5, 5, 5, 5, 5, 5, 5, 5, 5]] [0, 0, 0, 0, 1])
      = CrossValidated ''Random Forest'' 2 # rest) \<and>
   trainer_effective_folds 5 [0, 0, 0, 1, 1, 1, 2, 2, 2]
     (np_unique [0, 0, 0, 1, 1, 1, 2, 2, 2]) = Inr 3 \<and>
   evaluator_effective_folds 5 [0, 0, 0, 1, 1, 1, 2, 2, 2] = Inr 3"
proof -
  let ?sk = "\<lparr>cross_val_score = \<lambda>alg X y k. Inr [1, 1], fit = \<lambda>alg X y. Inr alg\<rparr>
               :: algorithm sklearn"
  let ?X5 = "[[1, 1, 1, 1, 1, 1, 1, 1, 1], [2, 2, 2, 2, 2, 2, 2, 2, 2], [3, 3, 3, 3, 3, 3, 3, 3, 3],
         [4, 4, 4, 4, 4, 4, 4, 4, 4], [5, 5, 5, 5, 5, 5, 5, 5, 5]] :: matrix"
  let ?X9 = "[[1, 1, 1, 1, 1, 1, 1, 1, 1], [2, 2, 2, 2, 2, 2, 2, 2, 2], [3, 3, 3, 3, 3, 3, 3, 3, 3],
         [4, 4, 4, 4, 4, 4, 4, 4, 4], [5, 5, 5, 5, 5, 5, 5, 5, 5], [6, 6, 6, 6, 6, 6, 6, 6, 6],
         [7, 7, 7, 7, 7, 7, 7, 7, 7], [8, 8, 8, 8, 8, 8, 8, 8, 8], [9, 9, 9, 9, 9, 9, 9, 9, 9]]
         :: matrix"
  have c1: "\<not> card (set [0, 0, 0, 0, 1 :: nat]) < 2" by simp
  have c2: "\<not> card (set [0, 0, 0, 1, 1, 1, 2, 2, 2 :: nat]) < 2" by simp
  have l1: "\<not> int (length ?X5) < 5" by simp
  have l2: "\<not> int (length ?X9) < 5" by simp
  have m1: "max 2 (min 5 (int (Min (count_list [0, 0, 0, 0, 1 :: nat] ` set [0, 0, 0, 0, 1])))) = 2"
    by simp
  have m2: "max 2 (min 5 (int (Min (count_list [0, 0, 0, 1, 1, 1, 2, 2, 2 :: nat]
                                      ` set [0, 0, 0, 1, 1, 1, 2, 2, 2])))) = 3"
    by simp
  from effective_folds_rule [OF l1 c1, of ?sk] effective_folds_rule [OF l2 c2, of ?sk]
  show ?thesis unfolding m1 m2 by auto
qed

text \<open>
  C7. For every successful run of \<open>train_all\<close>, the four returned models are in
  descending order of mean cross-validated accuracy and \<open>best_model\<close> is the first of them.
\<close>

theorem train_all_sorted_best_first:
  assumes "train_all sk n_folds X y = (Inr res, calls)"
  shows "sorted_wrt (\<lambda>a b. b \<le> a) (map cv_accuracy (models res)) \<and>
         (\<exists>rest. models res = best_model res # rest) \<and>
         length (models res) = 4"
proof -
  from assms obtain k trained calls' where
    tl: "train_loop sk build_pipelines X y k [] [] = (Inr trained, calls')"
    and ne: "sort_by_accuracy_desc trained \<noteq> []"
    and ms: "models res = sort_by_accuracy_desc trained"
    and best: "best_model res = hd (sort_by_accuracy_desc trained)"
    by (auto simp: train_all_def Let_def split: if_splits sum.splits prod.splits list.splits)
  from train_loop_length [OF tl] have "length trained = 4" by (simp add: build_pipelines_def)
  then have "length (models res) = 4" by (simp add: ms sort_by_accuracy_desc_length)
  moreover have "sorted_wrt (\<lambda>a b. b \<le> a) (map cv_accuracy (models res))"
    unfolding ms by (rule sort_by_accuracy_desc_sorted)
  moreover from ne have "models res = best_model res # tl (models res)"
    by (simp add: ms best)
  ultimately show ?thesis by blast
qed

theorem train_all_sorted_best_first_witness:
  "\<exists>res calls.
     train_all
       \<lparr>cross_val_score = \<lambda>alg X y k.
            Inr (case alg of RandomForest \<Rightarrow> [3 / 4, 3 / 4] | SVM \<Rightarrow> [1, 1]
                 | KNN \<Rightarrow> [1 / 2, 1 / 2] | MLP \<Rightarrow> [1 / 2, 1]),
         fit = \<lambda>alg X y. Inr alg\<rparr> 2
       [[1, 1, 1, 1, 1, 1, 1, 1, 1], [2, 2, 2, 2, 2, 2, 2, 2, 2],
        [3, 3, 3, 3, 3, 3, 3, 3, 3], [4, 4, 4, 4, 4, 4, 4, 4, 4]] [0, 0, 1, 1]
       = (Inr res, calls) \<and>
     map name (models res) = [''SVM'', ''Random Forest'', ''MLP'', ''KNN''] \<and>
     map cv_accuracy (models res) = [1, 3 / 4, 3 / 4, 1 / 2] \<and>
     sorted_wrt (\<lambda>a b. b \<le> a) (map cv_accuracy (models res)) \<and>
     name (best_model res) = ''SVM''"
proof -
  let ?sk = "\<lparr>cross_val_score = \<lambda>alg X y k.
            Inr (case alg of RandomForest \<Rightarrow> [3 / 4, 3 / 4] | SVM \<Rightarrow> [1, 1]
                 | KNN \<Rightarrow> [1 / 2, 1 / 2] | MLP \<Rightarrow> [1 / 2, 1]),
         fit = \<lambda>alg X y. Inr alg\<rparr> :: algorithm sklearn"
  let ?X = "[[1, 1, 1, 1, 1, 1, 1, 1, 1], [2, 2, 2, 2, 2, 2, 2, 2, 2],
        [3, 3, 3, 3, 3, 3, 3, 3, 3], [4, 4, 4, 4, 4, 4, 4, 4, 4]] :: matrix"
  have "\<exists>res calls. train_all ?sk 2 ?X [0, 0, 1, 1] = (Inr res, calls) \<and>
          map name (models res) = [''SVM'', ''Random Forest'', ''MLP'', ''KNN''] \<and>
          map cv_accuracy (models res) = [1, 3 / 4, 3 / 4, 1 / 2]"
    by (simp add: train_all_def Let_def np_unique_def trainer_effective_folds_def
        np_bincount_def build_pipelines_def np_mean_def py_round_def round_half_even_def
        sort_by_accuracy_desc_def)
  then obtain res calls where
    ta: "train_all ?sk 2 ?X [0, 0, 1, 1] = (Inr res, calls)"
    and nm: "map name (models res) = [''SVM'', ''Random Forest'', ''MLP'', ''KNN'']"
    and acc: "map cv_accuracy (models res) = [1, 3 / 4, 3 / 4, 1 / 2]"
    by (elim exE conjE) (rule that)
  from train_all_sorted_best_first [OF ta] obtain rest where
    srt: "sorted_wrt (\<lambda>a b. b \<le> a) (map cv_accuracy (models res))"
    and best: "models res = best_model res # rest"
    by (elim exE conjE) (rule that)
  from nm have "name (hd (models res)) = ''SVM''" by (cases "models res") auto
  with best have "name (best_model res) = ''SVM''" by (metis list.sel(1))
  with ta nm acc srt show ?thesis by (intro exI [of _ res] exI [of _ calls]) simp
qed

end
